theory Spec2Isabelle
  imports Main "HOL-Library.AList"
begin

section \<open>Values, errors and messages\<close>

text \<open>
  The values that flow through \<^verbatim>\<open>Table.py\<close>. The code only stores values, tests them
  with \<^verbatim>\<open>is None\<close> and \<^verbatim>\<open>isinstance\<close>, and adds \<^verbatim>\<open>1\<close> to the class counter, so a
  value is one of: \<^verbatim>\<open>None\<close>, a bool, an int, a str, a dict with string keys, a reference to
  a field descriptor (an address of the descriptor store), a reference to an entity class
  (an index of the class table), one of the two value containers of the module, or any
  other object \<open>PObj n\<close>, known by its identity \<open>n\<close> only (a function, a date, an entity
  instance, a class that is not an entity class). An object \<open>PObj n\<close> supports no arithmetic:
  a float stored in a field is such an object, and a class counter bound to a float is
  outside the model.
\<close>

datatype pyval =
    PNone
  | PBool bool
  | PInt int
  | PStr string
  | PObj nat
  | PField nat
  | PClass nat
  | PFieldValue nat pyval
  | PForeignFieldValue nat pyval
  | PDict "(string \<times> pyval) list"

text \<open>
  An f-string before formatting: its literal pieces and the values it interpolates.
\<close>

datatype fpart = Txt string | Fmt pyval

datatype error =
    NullConstraintException "fpart list"
  | AttributeError "fpart list"
  | TypeError "fpart list"

section \<open>Field descriptors\<close>

datatype field_kind =
    KTextField | KIntegerField | KRealField | KDateField | KDateTimeField
  | KOneToOneField | KOneToManyField | KManyToOneField | KManyToManyField

fun class_name :: "field_kind \<Rightarrow> string" where
  "class_name KTextField = ''TextField''"
| "class_name KIntegerField = ''IntegerField''"
| "class_name KRealField = ''RealField''"
| "class_name KDateField = ''DateField''"
| "class_name KDateTimeField = ''DateTimeField''"
| "class_name KOneToOneField = ''OneToOneField''"
| "class_name KOneToManyField = ''OneToManyField''"
| "class_name KManyToOneField = ''ManyToOneField''"
| "class_name KManyToManyField = ''ManyToManyField''"

text \<open>
  \<^verbatim>\<open>isinstance(field, _ForeignField)\<close>: the four relation classes derive from
  \<^verbatim>\<open>_ForeignField\<close>, the five scalar classes from \<^verbatim>\<open>_Field\<close> directly.
\<close>

fun isinstance_ForeignField :: "field_kind \<Rightarrow> bool" where
  "isinstance_ForeignField KOneToOneField = True"
| "isinstance_ForeignField KOneToManyField = True"
| "isinstance_ForeignField KManyToOneField = True"
| "isinstance_ForeignField KManyToManyField = True"
| "isinstance_ForeignField _ = False"

text \<open>
  A descriptor object. \<open>other_cls\<close> and \<open>source_cls\<close> are the attributes \<^verbatim>\<open>_other_cls\<close>
  and \<^verbatim>\<open>_source_cls\<close>, which only \<^verbatim>\<open>_ForeignField.__init__\<close> creates: they are \<open>None\<close>
  (absent) on a scalar descriptor.
\<close>

record field =
  kind :: field_kind
  default_val :: pyval
  allow_null :: bool
  unique :: bool
  other_cls :: "pyval option"
  source_cls :: "pyval option"

definition Field_init :: "field_kind \<Rightarrow> pyval \<Rightarrow> bool \<Rightarrow> bool \<Rightarrow> field" where
  "Field_init k dflt allow_null' unique' =
     \<lparr>kind = k, default_val = dflt, allow_null = allow_null', unique = unique',
      other_cls = None, source_cls = None\<rparr>"

definition ForeignField_init :: "field_kind \<Rightarrow> pyval \<Rightarrow> pyval \<Rightarrow> bool \<Rightarrow> field" where
  "ForeignField_init k other dflt allow_null' =
     (Field_init k dflt allow_null' True)\<lparr>other_cls := Some other, source_cls := Some PNone\<rparr>"

definition set_source :: "pyval \<Rightarrow> field \<Rightarrow> field" where
  "set_source source self = self\<lparr>source_cls := Some source\<rparr>"

text \<open>
  The five scalar classes: their \<^verbatim>\<open>__init__\<close> only calls \<^verbatim>\<open>_Field.__init__\<close>.
  The arguments are the ones the call passes, with Python's defaults
  (\<^verbatim>\<open>default=None, allow_null=True, unique=False\<close>) filled in by the caller.
\<close>

definition TextField :: "pyval \<Rightarrow> bool \<Rightarrow> bool \<Rightarrow> error + field" where
  "TextField dflt allow_null' unique' = Inr (Field_init KTextField dflt allow_null' unique')"

definition IntegerField :: "pyval \<Rightarrow> bool \<Rightarrow> bool \<Rightarrow> error + field" where
  "IntegerField dflt allow_null' unique' =
     Inr (Field_init KIntegerField dflt allow_null' unique')"

definition RealField :: "pyval \<Rightarrow> bool \<Rightarrow> bool \<Rightarrow> error + field" where
  "RealField dflt allow_null' unique' = Inr (Field_init KRealField dflt allow_null' unique')"

definition DateField :: "pyval \<Rightarrow> bool \<Rightarrow> bool \<Rightarrow> error + field" where
  "DateField dflt allow_null' unique' = Inr (Field_init KDateField dflt allow_null' unique')"

definition DateTimeField :: "pyval \<Rightarrow> bool \<Rightarrow> bool \<Rightarrow> error + field" where
  "DateTimeField dflt allow_null' unique' =
     Inr (Field_init KDateTimeField dflt allow_null' unique')"

text \<open>
  The four relation classes share one body: \<^verbatim>\<open>_ForeignField.__init__\<close>, then the check
  \<^verbatim>\<open>if not self.allow_null and self.default is None: raise NullConstraintException(...)\<close>.
\<close>

definition relation_init :: "field_kind \<Rightarrow> pyval \<Rightarrow> pyval \<Rightarrow> bool \<Rightarrow> error + field" where
  "relation_init k other dflt allow_null' =
     (let self = ForeignField_init k other dflt allow_null' in
      if \<not> allow_null self \<and> default_val self = PNone
      then Inl (NullConstraintException
             [Txt ''Default value cannot be '', Fmt dflt,
              Txt '' if allow_null='', Fmt (PBool allow_null'), Txt ''.''])
      else Inr self)"

definition OneToOneField :: "pyval \<Rightarrow> pyval \<Rightarrow> bool \<Rightarrow> error + field" where
  "OneToOneField other dflt allow_null' =
     relation_init KOneToOneField other dflt allow_null'"

definition OneToManyField :: "pyval \<Rightarrow> pyval \<Rightarrow> bool \<Rightarrow> error + field" where
  "OneToManyField other dflt allow_null' =
     relation_init KOneToManyField other dflt allow_null'"

definition ManyToOneField :: "pyval \<Rightarrow> pyval \<Rightarrow> bool \<Rightarrow> error + field" where
  "ManyToOneField other dflt allow_null' =
     relation_init KManyToOneField other dflt allow_null'"

definition ManyToManyField :: "pyval \<Rightarrow> pyval \<Rightarrow> bool \<Rightarrow> error + field" where
  "ManyToManyField other dflt allow_null' =
     relation_init KManyToManyField other dflt allow_null'"

section \<open>Value containers\<close>

text \<open>
  \<^verbatim>\<open>_FieldValue(field, value, use_default)\<close> and \<^verbatim>\<open>ForeignFieldValue(field, value,
  use_default)\<close>. The descriptor is passed as the object it is: its address \<open>a\<close>, kept in
  the container as \<^verbatim>\<open>_field\<close>, and its content \<open>field\<close>. The two classes have the same
  \<^verbatim>\<open>__init__\<close> body but are unrelated classes: \<^verbatim>\<open>ForeignFieldValue\<close> does not derive from
  \<^verbatim>\<open>_FieldValue\<close>.
\<close>

definition null_message :: "field \<Rightarrow> pyval \<Rightarrow> fpart list" where
  "null_message field v =
     [Txt ''Cannot set field '', Txt (class_name (kind field)), Txt '' to '', Fmt v,
      Txt '' if allow_null='', Fmt (PBool (allow_null field)), Txt ''.'']"

definition FieldValue_init :: "nat \<Rightarrow> field \<Rightarrow> pyval \<Rightarrow> bool \<Rightarrow> error + pyval" where
  "FieldValue_init a field value use_default =
     (let v = (if \<not> use_default then value else default_val field) in
      if v = PNone \<and> \<not> allow_null field
      then Inl (NullConstraintException (null_message field v))
      else Inr (PFieldValue a v))"

definition ForeignFieldValue_init :: "nat \<Rightarrow> field \<Rightarrow> pyval \<Rightarrow> bool \<Rightarrow> error + pyval" where
  "ForeignFieldValue_init a field value use_default =
     (let v = (if \<not> use_default then value else default_val field) in
      if v = PNone \<and> \<not> allow_null field
      then Inl (NullConstraintException (null_message field v))
      else Inr (PForeignFieldValue a v))"

section \<open>Entity classes and the store\<close>

text \<open>
  A Python dict keeps its keys in insertion order: it is an association list with distinct
  keys. \<^verbatim>\<open>{**d, **e}\<close> writes the entries of \<open>e\<close> into \<open>d\<close> one after the other: a key
  that \<open>d\<close> has keeps its place and takes the new value, a new key goes to the end.
\<close>

definition dict_merge :: "(string \<times> 'v) list \<Rightarrow> (string \<times> 'v) list \<Rightarrow> (string \<times> 'v) list" where
  "dict_merge d e = fold (\<lambda>(key, value). AList.update key value) e d"

text \<open>
  An entity class, as \<^verbatim>\<open>_TableMeta.__new__\<close> creates it. Its namespace is
  \<^verbatim>\<open>new_attrs\<close>: the entry \<^verbatim>\<open>_fields\<close>, kept here in a component of its own
  (\<open>cls_fields\<close>, a dict from field names to descriptor objects, that is to addresses), and
  the entries passed through from the class body (\<open>cls_attrs\<close>). \<open>cls_mro\<close> is the
  method resolution order that \<^verbatim>\<open>type.__new__\<close> computes, without the class itself
  (which always comes first) and without \<^verbatim>\<open>object\<close>.
\<close>

record table_class =
  cls_name :: string
  cls_bases :: "pyval list"
  cls_mro :: "nat list"
  cls_fields :: "(string \<times> nat) list"
  cls_attrs :: "(string \<times> pyval) list"

text \<open>
  The store: the descriptor objects by address (descriptors are shared between classes and
  mutated by \<^verbatim>\<open>set_source\<close>), and the entity classes in creation order (a class is known
  by its index). Addresses from \<open>next_addr\<close> on are not allocated.
\<close>

record state =
  heap :: "nat \<Rightarrow> field"
  next_addr :: nat
  classes :: "table_class list"

definition new_field :: "state \<Rightarrow> field \<Rightarrow> state \<times> pyval" where
  "new_field st f =
     (st\<lparr>heap := (heap st)(next_addr st := f), next_addr := Suc (next_addr st)\<rparr>,
      PField (next_addr st))"

definition get_cls :: "state \<Rightarrow> nat \<Rightarrow> table_class option" where
  "get_cls st c = (if c < length (classes st) then Some (classes st ! c) else None)"

definition no_attribute :: "string \<Rightarrow> error" where
  "no_attribute name = AttributeError [Txt ''object has no attribute '', Txt name]"

subsection \<open>Method resolution order\<close>

text \<open>
  The C3 linearisation of \<^verbatim>\<open>type.__new__\<close>: repeatedly take the first head of the
  remaining sequences that is in the tail of none of them; fail when there is none.
\<close>

fun c3_candidate :: "nat list list \<Rightarrow> nat list list \<Rightarrow> nat option" where
  "c3_candidate seqs [] = None"
| "c3_candidate seqs ([] # rest) = c3_candidate seqs rest"
| "c3_candidate seqs ((cand # t) # rest) =
     (if \<exists>s \<in> set seqs. cand \<in> set (tl s) then c3_candidate seqs rest else Some cand)"

definition c3_drop :: "nat \<Rightarrow> nat list \<Rightarrow> nat list" where
  "c3_drop cand s = (case s of [] \<Rightarrow> [] | h # t \<Rightarrow> if h = cand then t else s)"

function c3_merge :: "nat list list \<Rightarrow> nat list option" where
  "c3_merge seqs =
     (let nonempty = filter (\<lambda>s. s \<noteq> []) seqs in
      if nonempty = [] then Some []
      else (case c3_candidate nonempty nonempty of
              None \<Rightarrow> None
            | Some cand \<Rightarrow>
                (case c3_merge (map (c3_drop cand) nonempty) of
                   None \<Rightarrow> None
                 | Some res \<Rightarrow> Some (cand # res))))"
  by pat_completeness auto

section \<open>The schema composer: \<^verbatim>\<open>_TableMeta.__new__\<close>\<close>

definition isinstance_Field :: "pyval \<Rightarrow> bool" where
  "isinstance_Field value = (case value of PField a \<Rightarrow> True | _ \<Rightarrow> False)"

definition fields_dict :: "(string \<times> nat) list \<Rightarrow> (string \<times> pyval) list" where
  "fields_dict flds = map (\<lambda>(key, a). (key, PField a)) flds"

text \<open>
  \<^verbatim>\<open>base._fields\<close>: every class that the metaclass made has the entry; anything else
  given as a base (a plain class, any other object) has no such attribute.
\<close>

definition base_fields :: "state \<Rightarrow> pyval \<Rightarrow> error + (string \<times> pyval) list" where
  "base_fields st base =
     (case base of
        PClass c \<Rightarrow>
          (case get_cls st c of
             Some cl \<Rightarrow> Inr (fields_dict (cls_fields cl))
           | None \<Rightarrow> Inl (no_attribute ''_fields''))
      | _ \<Rightarrow> Inl (no_attribute ''_fields''))"

text \<open>
  \<^verbatim>\<open>for base in bases: base_attrs = {**base_attrs, **base._fields}\<close>
\<close>

fun merge_bases ::
  "state \<Rightarrow> pyval list \<Rightarrow> (string \<times> pyval) list \<Rightarrow> error + (string \<times> pyval) list" where
  "merge_bases st [] base_attrs = Inr base_attrs"
| "merge_bases st (base # bases) base_attrs =
     (case base_fields st base of
        Inl e \<Rightarrow> Inl e
      | Inr d \<Rightarrow> merge_bases st bases (dict_merge base_attrs d))"

text \<open>
  \<^verbatim>\<open>{key: value for key, value in d.items() if isinstance(value, _Field)}\<close>
\<close>

fun only_fields :: "(string \<times> pyval) list \<Rightarrow> (string \<times> nat) list" where
  "only_fields [] = []"
| "only_fields ((key, value) # rest) =
     (case value of
        PField a \<Rightarrow> (key, a) # only_fields rest
      | _ \<Rightarrow> only_fields rest)"

text \<open>
  \<^verbatim>\<open>for key, value in attrs.items():
      if not isinstance(value, _Field) and key not in new_attrs.keys(): new_attrs[key] = value\<close>
  where \<^verbatim>\<open>new_attrs\<close> starts with the one key \<^verbatim>\<open>_fields\<close>.
\<close>

definition pass_through :: "(string \<times> pyval) list \<Rightarrow> (string \<times> pyval) list" where
  "pass_through attrs =
     fold (\<lambda>(key, value) new_attrs.
             if \<not> isinstance_Field value \<and> key \<notin> set (''_fields'' # map fst new_attrs)
             then new_attrs @ [(key, value)] else new_attrs)
          attrs []"

definition class_ids :: "pyval list \<Rightarrow> nat list" where
  "class_ids bases = concat (map (\<lambda>b. case b of PClass c \<Rightarrow> [c] | _ \<Rightarrow> []) bases)"

definition full_mro :: "state \<Rightarrow> nat \<Rightarrow> nat list" where
  "full_mro st c = c # (case get_cls st c of Some cl \<Rightarrow> cls_mro cl | None \<Rightarrow> [])"

text \<open>
  \<^verbatim>\<open>type.__new__(mcs, name, bases, new_attrs)\<close>: refuses a base given twice and bases
  that have no linearisation, and otherwise creates the class, which gets the next index.
\<close>

definition type_new ::
  "state \<Rightarrow> string \<Rightarrow> pyval list \<Rightarrow> (string \<times> nat) list \<Rightarrow> (string \<times> pyval) list
   \<Rightarrow> error + (state \<times> nat)" where
  "type_new st name bases flds new_attrs =
     (let ids = class_ids bases in
      if \<not> distinct ids then Inl (TypeError [Txt ''duplicate base class''])
      else (case c3_merge (map (full_mro st) ids @ [ids]) of
              None \<Rightarrow> Inl (TypeError [Txt ''Cannot create a consistent method resolution order''])
            | Some mro \<Rightarrow>
                Inr (st\<lparr>classes := classes st @
                          [\<lparr>cls_name = name, cls_bases = bases, cls_mro = mro,
                            cls_fields = flds, cls_attrs = new_attrs\<rparr>]\<rparr>,
                     length (classes st))))"

text \<open>
  \<^verbatim>\<open>for field in new_attrs["_fields"].values():
      if isinstance(field, _ForeignField): field.set_source(newCls)\<close>
\<close>

definition bind_sources :: "pyval \<Rightarrow> (string \<times> nat) list \<Rightarrow> (nat \<Rightarrow> field) \<Rightarrow> nat \<Rightarrow> field" where
  "bind_sources newCls flds h =
     fold (\<lambda>(key, a) h.
             if isinstance_ForeignField (kind (h a)) then h(a := set_source newCls (h a)) else h)
          flds h"

definition TableMeta_new ::
  "state \<Rightarrow> string \<Rightarrow> pyval list \<Rightarrow> (string \<times> pyval) list \<Rightarrow> error + (state \<times> pyval)" where
  "TableMeta_new st name bases attrs =
     (case merge_bases st bases [] of
        Inl e \<Rightarrow> Inl e
      | Inr base_attrs \<Rightarrow>
          (let flds = only_fields (dict_merge base_attrs attrs);
               new_attrs = pass_through attrs
           in case type_new st name bases flds new_attrs of
                Inl e \<Rightarrow> Inl e
              | Inr (st1, newCls) \<Rightarrow>
                  Inr (st1\<lparr>heap := bind_sources (PClass newCls) flds (heap st1)\<rparr>,
                       PClass newCls)))"

section \<open>The entity instance protocol: class \<^verbatim>\<open>Table\<close>\<close>

text \<open>
  An instance: its class and its \<^verbatim>\<open>__dict__\<close>.
\<close>

record table_instance =
  inst_cls :: nat
  inst_dict :: "(string \<times> pyval) list"

subsection \<open>Attribute access of the runtime\<close>

text \<open>
  The namespace of a class, and the lookup of a class attribute along the method
  resolution order (\<^verbatim>\<open>cls.name\<close>). Class bodies bind plain values and functions; binding
  a function to the instance is not modelled (a method is returned as the object it is).
\<close>

definition cls_namespace :: "table_class \<Rightarrow> string \<Rightarrow> pyval option" where
  "cls_namespace cl name =
     (if name = ''_fields'' then Some (PDict (fields_dict (cls_fields cl)))
      else map_of (cls_attrs cl) name)"

fun lookup_mro :: "state \<Rightarrow> nat list \<Rightarrow> string \<Rightarrow> pyval option" where
  "lookup_mro st [] name = None"
| "lookup_mro st (c # cs) name =
     (case get_cls st c of
        None \<Rightarrow> lookup_mro st cs name
      | Some cl \<Rightarrow>
          (case cls_namespace cl name of
             Some v \<Rightarrow> Some v
           | None \<Rightarrow> lookup_mro st cs name))"

definition type_getattr :: "state \<Rightarrow> nat \<Rightarrow> string \<Rightarrow> pyval option" where
  "type_getattr st c name =
     (case get_cls st c of
        None \<Rightarrow> None
      | Some cl \<Rightarrow>
          (case cls_namespace cl name of
             Some v \<Rightarrow> Some v
           | None \<Rightarrow> lookup_mro st (cls_mro cl) name))"

text \<open>
  \<^verbatim>\<open>cls.name = v\<close> writes into the namespace of \<open>cls\<close> itself.
\<close>

definition type_setattr :: "state \<Rightarrow> nat \<Rightarrow> string \<Rightarrow> pyval \<Rightarrow> state" where
  "type_setattr st c name v =
     st\<lparr>classes := (classes st)
          [c := (classes st ! c)\<lparr>cls_attrs := AList.update name v (cls_attrs (classes st ! c))\<rparr>]\<rparr>"

text \<open>
  \<^verbatim>\<open>value + 1\<close>: defined on ints and bools, a \<^verbatim>\<open>TypeError\<close> on every other value of
  the model.
\<close>

fun py_add :: "pyval \<Rightarrow> int \<Rightarrow> error + pyval" where
  "py_add (PInt n) k = Inr (PInt (n + k))"
| "py_add (PBool b) k = Inr (PInt ((if b then 1 else 0) + k))"
| "py_add v k = Inl (TypeError [Txt ''unsupported operand type(s) for +: '', Fmt v])"

text \<open>
  \<^verbatim>\<open>setattr(self, name, v)\<close> and \<^verbatim>\<open>object.__getattribute__(self, item)\<close> on an instance
  of an entity class. The names \<^verbatim>\<open>__class__\<close>, \<^verbatim>\<open>__dict__\<close> and \<^verbatim>\<open>__weakref__\<close> are
  served by the slots of the runtime; every other name is looked up in the instance's
  dict and then in the class. What the lookup leaves out: the descriptor protocol
  (properties, the binding of functions), the attributes of \<^verbatim>\<open>object\<close>, and the entries
  the interpreter adds to a class body (\<^verbatim>\<open>__module__\<close>, \<^verbatim>\<open>__qualname__\<close>).
\<close>

definition object_setattr :: "table_instance \<Rightarrow> string \<Rightarrow> pyval \<Rightarrow> error + table_instance" where
  "object_setattr self name v =
     (if name = ''__class__'' then
        (case v of
           PClass c \<Rightarrow> Inr (self\<lparr>inst_cls := c\<rparr>)
         | _ \<Rightarrow> Inl (TypeError [Txt ''__class__ must be set to a class, not '', Fmt v]))
      else if name = ''__dict__'' then
        (case v of
           PDict d \<Rightarrow> Inr (self\<lparr>inst_dict := d\<rparr>)
         | _ \<Rightarrow> Inl (TypeError [Txt ''__dict__ must be set to a dictionary, not '', Fmt v]))
      else if name = ''__weakref__'' then
        Inl (AttributeError [Txt ''attribute __weakref__ is not writable''])
      else Inr (self\<lparr>inst_dict := AList.update name v (inst_dict self)\<rparr>))"

definition object_getattribute :: "state \<Rightarrow> table_instance \<Rightarrow> string \<Rightarrow> error + pyval" where
  "object_getattribute st self item =
     (if item = ''__class__'' then Inr (PClass (inst_cls self))
      else if item = ''__dict__'' then Inr (PDict (inst_dict self))
      else if item = ''__weakref__'' then Inr PNone
      else (case map_of (inst_dict self) item of
              Some v \<Rightarrow> Inr v
            | None \<Rightarrow>
                (case type_getattr st (inst_cls self) item of
                   Some v \<Rightarrow> Inr v
                 | None \<Rightarrow> Inl (no_attribute item))))"

subsection \<open>\<^verbatim>\<open>Table.__getattribute__\<close>, \<^verbatim>\<open>fields\<close>, \<^verbatim>\<open>field_names\<close>\<close>

text \<open>
  \<^verbatim>\<open>value = object.__getattribute__(self, item)
  if isinstance(value, _FieldValue): return value.value
  return value\<close>
\<close>

definition Table_getattribute :: "state \<Rightarrow> table_instance \<Rightarrow> string \<Rightarrow> error + pyval" where
  "Table_getattribute st self item =
     (case object_getattribute st self item of
        Inl e \<Rightarrow> Inl e
      | Inr value \<Rightarrow>
          (case value of
             PFieldValue a x \<Rightarrow> Inr x
           | _ \<Rightarrow> Inr value))"

definition fields :: "state \<Rightarrow> nat \<Rightarrow> error + (string \<times> nat) list" where
  "fields st c =
     (case get_cls st c of
        Some cl \<Rightarrow> Inr (cls_fields cl)
      | None \<Rightarrow> Inl (no_attribute ''_fields''))"

definition field_names :: "state \<Rightarrow> nat \<Rightarrow> error + string list" where
  "field_names st c =
     (case fields st c of
        Inl e \<Rightarrow> Inl e
      | Inr flds \<Rightarrow> Inr (map fst flds))"

subsection \<open>\<^verbatim>\<open>Table.__init__\<close>\<close>

text \<open>
  The loop over \<^verbatim>\<open>self.fields().items()\<close>. A raise inside a container's constructor or
  inside \<^verbatim>\<open>setattr\<close> ends it.
\<close>

fun init_fields ::
  "(nat \<Rightarrow> field) \<Rightarrow> (string \<times> nat) list \<Rightarrow> table_instance \<Rightarrow> (string \<times> pyval) list
   \<Rightarrow> error + (table_instance \<times> (string \<times> pyval) list)" where
  "init_fields h [] self kwargs = Inr (self, kwargs)"
| "init_fields h ((field_name, a) # rest) self kwargs =
     (case map_of kwargs field_name of
        Some value \<Rightarrow>
          (case (if isinstance_ForeignField (kind (h a))
                 then ForeignFieldValue_init a (h a) value False
                 else FieldValue_init a (h a) value False) of
             Inl e \<Rightarrow> Inl e
           | Inr box \<Rightarrow>
               (case object_setattr self field_name box of
                  Inl e \<Rightarrow> Inl e
                | Inr self' \<Rightarrow> init_fields h rest self' (AList.delete field_name kwargs)))
      | None \<Rightarrow>
          (case (if isinstance_ForeignField (kind (h a))
                 then ForeignFieldValue_init a (h a) PNone True
                 else FieldValue_init a (h a) PNone True) of
             Inl e \<Rightarrow> Inl e
           | Inr box \<Rightarrow>
               (case object_setattr self field_name box of
                  Inl e \<Rightarrow> Inl e
                | Inr self' \<Rightarrow> init_fields h rest self' kwargs)))"

text \<open>
  The call \<^verbatim>\<open>cls(*args, **kwargs)\<close> of a class \<open>c\<close> that takes \<^verbatim>\<open>__init__\<close>, \<^verbatim>\<open>fields\<close>
  and \<^verbatim>\<open>__getattribute__\<close> from \<^verbatim>\<open>Table\<close>: the runtime binds the arguments to the
  signature \<^verbatim>\<open>def __init__(self, *args, **kwargs)\<close> and then runs the body on a fresh
  instance. Binding refuses a keyword named \<^verbatim>\<open>self\<close> with a \<^verbatim>\<open>TypeError\<close> (the parameter
  \<^verbatim>\<open>self\<close> already holds the instance), and then the body does not run at all; every
  other keyword goes to \<^verbatim>\<open>kwargs\<close>. The result is the state after the call (the class
  counter is a class attribute) and either the error raised or the instance. The last \<^verbatim>\<open>raise\<close> formats its message with
  \<^verbatim>\<open>kwargs.keys()[0]\<close>; a \<^verbatim>\<open>dict_keys\<close> view has no indexing, so evaluating the message
  raises \<^verbatim>\<open>TypeError\<close> and the \<^verbatim>\<open>AttributeError\<close> is never built.
\<close>

definition Table_init ::
  "state \<Rightarrow> nat \<Rightarrow> pyval list \<Rightarrow> (string \<times> pyval) list \<Rightarrow> state \<times> (error + table_instance)" where
  "Table_init st c args kwargs =
     (case map_of kwargs ''self'' of
        Some v \<Rightarrow>
          (st, Inl (TypeError [Txt ''__init__() got multiple values for argument self'']))
      | None \<Rightarrow>
     (case type_getattr st c ''_count'' of
        None \<Rightarrow> (st, Inl (no_attribute ''_count''))
      | Some n \<Rightarrow>
          (case py_add n 1 of
             Inl e \<Rightarrow> (st, Inl e)
           | Inr n' \<Rightarrow>
               (let st' = type_setattr st c ''_count'' n' in
                case args of
                  arg # _ \<Rightarrow>
                    (st', Inl (AttributeError
                                 [Txt ''Got unexpected parameter '', Fmt arg, Txt ''.'']))
                | [] \<Rightarrow>
                    (case fields st' c of
                       Inl e \<Rightarrow> (st', Inl e)
                     | Inr flds \<Rightarrow>
                         (case init_fields (heap st') flds
                                 \<lparr>inst_cls = c, inst_dict = []\<rparr> kwargs of
                            Inl e \<Rightarrow> (st', Inl e)
                          | Inr (self, kwargs') \<Rightarrow>
                              if length kwargs' \<noteq> 0
                              then (st', Inl (TypeError
                                     [Txt ''dict_keys object is not subscriptable'']))
                              else (st', Inr self)))))))"

section \<open>The module after import\<close>

text \<open>
  Importing the module creates the descriptor \<^verbatim>\<open>IntegerField(unique=True)\<close> and the class
  \<^verbatim>\<open>Table\<close> from its body (the functions of the body are objects known by identity).
\<close>

definition empty_state :: state where
  "empty_state =
     \<lparr>heap = (\<lambda>a. Field_init KIntegerField PNone True False), next_addr = 0, classes = []\<rparr>"

definition Table_body :: "pyval \<Rightarrow> (string \<times> pyval) list" where
  "Table_body id_field =
     [(''_id'', id_field), (''_fields'', PDict []), (''_registered_to'', PNone),
      (''_count'', PInt 0), (''__init__'', PObj 0), (''fields'', PObj 1),
      (''field_names'', PObj 2), (''__getattribute__'', PObj 3)]"

definition module_state :: state where
  "module_state =
     (let (st, id_field) = new_field empty_state (Field_init KIntegerField PNone True True)
      in case TableMeta_new st ''Table'' [] (Table_body id_field) of
           Inr (st', cls) \<Rightarrow> st'
         | Inl e \<Rightarrow> st)"

section \<open>Notions used in the statements\<close>

text \<open>
  The value that \<^verbatim>\<open>Table.__init__\<close> resolves for the field \<open>field_name\<close> with descriptor
  \<open>a\<close>: \<^verbatim>\<open>kwargs[field_name]\<close> when the caller supplied the name, the descriptor's default
  otherwise; and the container the loop builds from it, a \<^verbatim>\<open>ForeignFieldValue\<close> for a
  relation descriptor and a \<^verbatim>\<open>_FieldValue\<close> for a scalar one.
\<close>

definition resolved_value ::
  "(nat \<Rightarrow> field) \<Rightarrow> (string \<times> pyval) list \<Rightarrow> string \<Rightarrow> nat \<Rightarrow> pyval" where
  "resolved_value h kwargs field_name a =
     (case map_of kwargs field_name of Some value \<Rightarrow> value | None \<Rightarrow> default_val (h a))"

definition container ::
  "(nat \<Rightarrow> field) \<Rightarrow> (string \<times> pyval) list \<Rightarrow> string \<Rightarrow> nat \<Rightarrow> pyval" where
  "container h kwargs field_name a =
     (if isinstance_ForeignField (kind (h a))
      then PForeignFieldValue a (resolved_value h kwargs field_name a)
      else PFieldValue a (resolved_value h kwargs field_name a))"

text \<open>
  \<^verbatim>\<open>isinstance(value, _FieldValue)\<close>, the test of \<^verbatim>\<open>Table.__getattribute__\<close>.
\<close>

definition isinstance_FieldValue :: "pyval \<Rightarrow> bool" where
  "isinstance_FieldValue value = (case value of PFieldValue a x \<Rightarrow> True | _ \<Rightarrow> False)"

text \<open>
  The attribute names that the runtime serves from slots.
\<close>

definition is_slot_name :: "string \<Rightarrow> bool" where
  "is_slot_name name \<longleftrightarrow>
     name = ''__class__'' \<or> name = ''__dict__'' \<or> name = ''__weakref__''"

text \<open>
  A dict has each key once: the \<^verbatim>\<open>_fields\<close> of every class of a well-formed state has
  distinct keys. The metaclass and the constructor keep states well-formed.
\<close>

definition wf_state :: "state \<Rightarrow> bool" where
  "wf_state st \<longleftrightarrow> list_all (\<lambda>cl. distinct (map fst (cls_fields cl))) (classes st)"

text \<open>
  The base \<open>base\<close> has the name \<open>k\<close> in its \<^verbatim>\<open>_fields\<close>.
\<close>

definition base_has :: "state \<Rightarrow> pyval \<Rightarrow> string \<Rightarrow> bool" where
  "base_has st base k \<longleftrightarrow>
     (case base of
        PClass c \<Rightarrow>
          (case get_cls st c of Some cl \<Rightarrow> k \<in> set (map fst (cls_fields cl)) | None \<Rightarrow> False)
      | _ \<Rightarrow> False)"

section \<open>Example programs\<close>

text \<open>
  In the examples a descriptor is what its constructor returns for arguments that pass
  the constructor's check: \<open>Field_init\<close> for a scalar class, \<open>ForeignField_init\<close> for a
  relation class.
\<close>

text \<open>
  \<^verbatim>\<open>class Person(Table):
      name = TextField(default="anon", allow_null=False)
      age = IntegerField(default=0)\<close>
\<close>

definition person_state :: state where
  "person_state =
     (let (st1, name) = new_field module_state
                          (Field_init KTextField (PStr ''anon'') False False);
          (st2, age) = new_field st1 (Field_init KIntegerField (PInt 0) True False)
      in case TableMeta_new st2 ''Person'' [PClass 0] [(''name'', name), (''age'', age)] of
           Inr (st, cls) \<Rightarrow> st
         | Inl e \<Rightarrow> st2)"

text \<open>
  \<^verbatim>\<open>class Profile(Table):
      owner = OneToOneField(Person)\<close>
\<close>

definition profile_state :: state where
  "profile_state =
     (let (st1, owner) = new_field person_state
                           (ForeignField_init KOneToOneField (PClass 1) PNone True)
      in case TableMeta_new st1 ''Profile'' [PClass 0] [(''owner'', owner)] of
           Inr (st, cls) \<Rightarrow> st
         | Inl e \<Rightarrow> st1)"

text \<open>
  \<^verbatim>\<open>class Premium(Profile): pass\<close>
\<close>

definition premium_state :: state where
  "premium_state =
     (case TableMeta_new profile_state ''Premium'' [PClass 2] [] of
        Inr (st, cls) \<Rightarrow> st
      | Inl e \<Rightarrow> profile_state)"

text \<open>
  \<^verbatim>\<open>class Dog(Person):
      age = RealField(default=1.5)\<close>
  The new descriptor is created first and gets the address 3; the float is an object
  known by its identity.
\<close>

definition real_field_state :: state where
  "real_field_state =
     fst (new_field person_state (Field_init KRealField (PObj 15) True False))"

definition dog_state :: state where
  "dog_state =
     (case TableMeta_new real_field_state ''Dog'' [PClass 1] [(''age'', PField 3)] of
        Inr (st, cls) \<Rightarrow> st
      | Inl e \<Rightarrow> real_field_state)"

section \<open>Termination of the linearisation\<close>

lemma c3_candidate_head:
  "c3_candidate seqs ss = Some cand \<Longrightarrow> \<exists>s \<in> set ss. s \<noteq> [] \<and> hd s = cand"
  by (induction seqs ss rule: c3_candidate.induct) (auto split: if_splits)

lemma c3_drop_length: "length (c3_drop cand s) \<le> length s"
  by (cases s) (auto simp: c3_drop_def)

lemma c3_drop_sum_le:
  "sum_list (map length (map (c3_drop cand) ss)) \<le> sum_list (map length ss)"
proof (induction ss)
  case Nil
  then show ?case by simp
next
  case (Cons x xs)
  with c3_drop_length [of cand x] show ?case by simp
qed

lemma c3_drop_shrinks:
  "s \<in> set ss \<Longrightarrow> s \<noteq> [] \<Longrightarrow> hd s = cand \<Longrightarrow>
   sum_list (map length (map (c3_drop cand) ss)) < sum_list (map length ss)"
proof (induction ss)
  case Nil
  then show ?case by simp
next
  case (Cons x xs)
  show ?case
  proof (cases "x = s")
    case True
    with Cons.prems have "length (c3_drop cand x) < length x"
      by (cases x) (auto simp: c3_drop_def)
    with c3_drop_sum_le [of cand xs] show ?thesis by simp
  next
    case False
    with Cons have "sum_list (map length (map (c3_drop cand) xs)) < sum_list (map length xs)"
      by simp
    with c3_drop_length [of cand x] show ?thesis by simp
  qed
qed

lemma filter_nonempty_length:
  "sum_list (map length (filter (\<lambda>s. s \<noteq> []) seqs)) = sum_list (map length seqs)"
  by (induction seqs) auto

termination c3_merge
proof (relation "measure (\<lambda>seqs. sum_list (map length seqs))")
  show "wf (measure (\<lambda>seqs. sum_list (map length seqs)))" by simp
next
  fix seqs :: "nat list list" and nonempty cand
  assume ne: "nonempty = filter (\<lambda>s. s \<noteq> []) seqs"
    and cand: "c3_candidate nonempty nonempty = Some cand"
  from c3_candidate_head [OF cand] obtain s
    where "s \<in> set nonempty" "s \<noteq> []" "hd s = cand" by blast
  then have "sum_list (map length (map (c3_drop cand) nonempty))
      < sum_list (map length nonempty)"
    by (rule c3_drop_shrinks)
  then show "(map (c3_drop cand) nonempty, seqs)
      \<in> measure (\<lambda>seqs. sum_list (map length seqs))"
    by (simp add: ne filter_nonempty_length)
qed

declare c3_merge.simps [simp del]

section \<open>Dicts\<close>

lemma dict_merge_Cons: "dict_merge d ((k, v) # e) = dict_merge (AList.update k v d) e"
  by (simp add: dict_merge_def)

lemma dict_merge_Nil: "dict_merge d [] = d"
  by (simp add: dict_merge_def)

lemma dict_merge_lookup:
  "map_of (dict_merge d e) x = (case map_of (rev e) x of None \<Rightarrow> map_of d x | Some v \<Rightarrow> Some v)"
proof (induction e arbitrary: d)
  case Nil
  then show ?case by (simp add: dict_merge_Nil)
next
  case (Cons p e)
  obtain k v where p: "p = (k, v)" by (cases p)
  show ?case
    by (simp add: p dict_merge_Cons Cons.IH update_conv' map_add_def split: option.splits)
qed

lemma map_of_rev_distinct:
  "distinct (map fst e) \<Longrightarrow> map_of (rev e) x = map_of e x"
proof (induction e)
  case Nil
  then show ?case by simp
next
  case (Cons p e)
  obtain k v where p: "p = (k, v)" by (cases p)
  with Cons.prems have "map_of e k = None"
    by (simp add: map_of_eq_None_iff)
  with Cons p show ?case
    by (auto simp: map_add_def split: option.splits)
qed

lemma dict_merge_keys: "fst ` set (dict_merge d e) = fst ` set d \<union> fst ` set e"
proof (induction e arbitrary: d)
  case Nil
  then show ?case by (simp add: dict_merge_Nil)
next
  case (Cons p e)
  obtain k v where p: "p = (k, v)" by (cases p)
  show ?case
    by (simp add: p dict_merge_Cons Cons.IH dom_update)
qed

lemma dict_merge_distinct:
  "distinct (map fst d) \<Longrightarrow> distinct (map fst (dict_merge d e))"
proof (induction e arbitrary: d)
  case Nil
  then show ?case by (simp add: dict_merge_Nil)
next
  case (Cons p e)
  obtain k v where p: "p = (k, v)" by (cases p)
  from Cons show ?case
    by (simp add: p dict_merge_Cons distinct_update)
qed

lemma isinstance_Field_iff: "isinstance_Field v \<longleftrightarrow> (\<exists>a. v = PField a)"
  by (cases v) (simp_all add: isinstance_Field_def)

lemma only_fields_other: "\<not> isinstance_Field v \<Longrightarrow> only_fields ((k, v) # rest) = only_fields rest"
  by (cases v) (simp_all add: isinstance_Field_def)

lemma only_fields_field: "only_fields ((k, PField a) # rest) = (k, a) # only_fields rest"
  by simp

declare only_fields.simps(2) [simp del]

lemma only_fields_keys: "k \<in> fst ` set (only_fields d) \<Longrightarrow> k \<in> fst ` set d"
proof (induction d)
  case Nil
  then show ?case by simp
next
  case (Cons p d)
  obtain k0 v where p: "p = (k0, v)" by (cases p)
  show ?case
  proof (cases "isinstance_Field v")
    case True
    then obtain a where "v = PField a" by (auto simp: isinstance_Field_iff)
    with Cons p show ?thesis by (auto simp: only_fields_field)
  next
    case False
    with Cons p show ?thesis by (auto simp: only_fields_other)
  qed
qed

lemma only_fields_distinct:
  "distinct (map fst d) \<Longrightarrow> distinct (map fst (only_fields d))"
proof (induction d)
  case Nil
  then show ?case by simp
next
  case (Cons p d)
  obtain k0 v where p: "p = (k0, v)" by (cases p)
  show ?case
  proof (cases "isinstance_Field v")
    case True
    then obtain a where "v = PField a" by (auto simp: isinstance_Field_iff)
    with Cons p only_fields_keys [of k0 d] show ?thesis by (auto simp: only_fields_field)
  next
    case False
    with Cons p show ?thesis by (auto simp: only_fields_other)
  qed
qed

lemma only_fields_lookup:
  "distinct (map fst d) \<Longrightarrow>
   map_of (only_fields d) k =
     (case map_of d k of None \<Rightarrow> None | Some v \<Rightarrow> (case v of PField a \<Rightarrow> Some a | _ \<Rightarrow> None))"
proof (induction d)
  case Nil
  then show ?case by simp
next
  case (Cons p d)
  obtain k0 v where p: "p = (k0, v)" by (cases p)
  from Cons.prems p have fresh: "k0 \<notin> fst ` set d" by auto
  then have none: "map_of (only_fields d) k0 = None"
    using only_fields_keys [of k0 d] by (auto simp: map_of_eq_None_iff)
  from fresh have dnone: "map_of d k0 = None"
    by (simp add: map_of_eq_None_iff)
  show ?case
  proof (cases "isinstance_Field v")
    case True
    then obtain a where "v = PField a" by (auto simp: isinstance_Field_iff)
    with Cons p dnone show ?thesis by (simp add: only_fields_field)
  next
    case False
    then have "(case v of PField a \<Rightarrow> Some a | _ \<Rightarrow> None) = None"
      by (cases v) (simp_all add: isinstance_Field_def)
    with False Cons p none dnone show ?thesis by (simp add: only_fields_other)
  qed
qed

lemma fields_dict_lookup:
  "map_of (fields_dict flds) k = map_option PField (map_of flds k)"
  by (induction flds) (auto simp: fields_dict_def)

lemma fields_dict_keys: "map fst (fields_dict flds) = map fst flds"
  by (induction flds) (auto simp: fields_dict_def)

section \<open>The schema composer\<close>

lemma wf_state_get_cls:
  "wf_state st \<Longrightarrow> get_cls st c = Some cl \<Longrightarrow> distinct (map fst (cls_fields cl))"
  by (auto simp: wf_state_def get_cls_def list_all_length split: if_splits)

lemma base_fields_Inr:
  "base_fields st base = Inr d \<Longrightarrow>
   \<exists>c cl. base = PClass c \<and> get_cls st c = Some cl \<and> d = fields_dict (cls_fields cl)"
  by (cases base) (auto simp: base_fields_def split: option.splits)

lemma merge_bases_distinct:
  "merge_bases st bases acc = Inr r \<Longrightarrow> distinct (map fst acc) \<Longrightarrow> distinct (map fst r)"
proof (induction bases arbitrary: acc)
  case Nil
  then show ?case by simp
next
  case (Cons base bases)
  then show ?case
    by (auto split: sum.splits intro: dict_merge_distinct)
qed

lemma merge_bases_classes:
  "merge_bases st bases acc = Inr r \<Longrightarrow> base \<in> set bases \<Longrightarrow>
   \<exists>c cl. base = PClass c \<and> get_cls st c = Some cl"
proof (induction bases arbitrary: acc)
  case Nil
  then show ?case by simp
next
  case (Cons b bases)
  then show ?case
    by (auto split: sum.splits dest: base_fields_Inr)
qed

lemma merge_bases_absent:
  "merge_bases st bases acc = Inr r \<Longrightarrow> \<forall>base \<in> set bases. \<not> base_has st base k \<Longrightarrow>
   map_of r k = map_of acc k"
proof (induction bases arbitrary: acc)
  case Nil
  then show ?case by simp
next
  case (Cons b bases)
  from Cons.prems(1) obtain d where d: "base_fields st b = Inr d"
    and rest: "merge_bases st bases (dict_merge acc d) = Inr r"
    by (auto split: sum.splits)
  from base_fields_Inr [OF d] obtain c cl where
    b: "b = PClass c" "get_cls st c = Some cl" "d = fields_dict (cls_fields cl)" by blast
  from Cons.prems(2) b have "k \<notin> fst ` set (cls_fields cl)"
    by (simp add: base_has_def)
  then have "k \<notin> fst ` set (rev d)"
    using fields_dict_keys [of "cls_fields cl"] b(3) by (metis set_map set_rev)
  then have "map_of (rev d) k = None"
    by (simp add: map_of_eq_None_iff)
  with Cons.IH [OF rest] Cons.prems(2) show ?case
    by (simp add: dict_merge_lookup)
qed

lemma merge_bases_last:
  assumes "merge_bases st (bs1 @ PClass b # bs2) acc = Inr r"
    and "get_cls st b = Some cb" and "distinct (map fst (cls_fields cb))"
    and "map_of (cls_fields cb) k = Some a"
    and "\<forall>base \<in> set bs2. \<not> base_has st base k"
  shows "map_of r k = Some (PField a)"
  using assms(1)
proof (induction bs1 arbitrary: acc)
  case Nil
  let ?d = "fields_dict (cls_fields cb)"
  from Nil assms(2) have rest: "merge_bases st bs2 (dict_merge acc ?d) = Inr r"
    by (simp add: base_fields_def)
  have "distinct (map fst ?d)"
    using assms(3) by (simp add: fields_dict_keys)
  then have "map_of (rev ?d) k = Some (PField a)"
    using assms(4) by (simp add: map_of_rev_distinct fields_dict_lookup)
  with merge_bases_absent [OF rest assms(5)] show ?case
    by (simp add: dict_merge_lookup)
next
  case (Cons x bs1)
  then show ?case
    by (auto split: sum.splits)
qed

lemma merge_bases_mono:
  "merge_bases st bases acc = Inr r \<Longrightarrow> map_of acc k \<noteq> None \<Longrightarrow> map_of r k \<noteq> None"
proof (induction bases arbitrary: acc)
  case Nil
  then show ?case by simp
next
  case (Cons b bases)
  from Cons.prems(1) obtain d where
    rest: "merge_bases st bases (dict_merge acc d) = Inr r"
    by (auto split: sum.splits)
  from Cons.prems(2) have "map_of (dict_merge acc d) k \<noteq> None"
    by (simp add: dict_merge_lookup split: option.splits)
  from Cons.IH [OF rest this] show ?case .
qed

lemma merge_bases_has:
  "merge_bases st bases acc = Inr r \<Longrightarrow> base \<in> set bases \<Longrightarrow> base_has st base k \<Longrightarrow>
   map_of r k \<noteq> None"
proof (induction bases arbitrary: acc)
  case Nil
  then show ?case by simp
next
  case (Cons b bases)
  from Cons.prems(1) obtain d where d: "base_fields st b = Inr d"
    and rest: "merge_bases st bases (dict_merge acc d) = Inr r"
    by (auto split: sum.splits)
  show ?case
  proof (cases "base = b")
    case True
    from base_fields_Inr [OF d] obtain c cl where
      b: "b = PClass c" "get_cls st c = Some cl" "d = fields_dict (cls_fields cl)" by blast
    with True Cons.prems(3) have "k \<in> fst ` set (rev d)"
      using fields_dict_keys [of "cls_fields cl"]
      by (simp add: base_has_def) (metis set_map)
    then have "map_of (rev d) k \<noteq> None"
      by (simp add: map_of_eq_None_iff)
    then have "map_of (dict_merge acc d) k \<noteq> None"
      by (auto simp: dict_merge_lookup split: option.splits)
    from merge_bases_mono [OF rest this] show ?thesis .
  next
    case False
    with Cons.prems(2) have "base \<in> set bases" by simp
    from Cons.IH [OF rest this Cons.prems(3)] show ?thesis .
  qed
qed

lemma merge_bases_values:
  "merge_bases st bases acc = Inr r \<Longrightarrow>
   \<forall>k v. map_of acc k = Some v \<longrightarrow> isinstance_Field v \<Longrightarrow>
   map_of r k = Some v \<Longrightarrow> isinstance_Field v"
proof (induction bases arbitrary: acc)
  case Nil
  then show ?case by simp
next
  case (Cons b bases)
  from Cons.prems(1) obtain d where d: "base_fields st b = Inr d"
    and rest: "merge_bases st bases (dict_merge acc d) = Inr r"
    by (auto split: sum.splits)
  from base_fields_Inr [OF d] obtain cl :: table_class where
    b: "d = fields_dict (cls_fields cl)" by blast
  have "\<forall>k v. map_of (rev d) k = Some v \<longrightarrow> isinstance_Field v"
    unfolding b fields_dict_def
    by (auto simp: isinstance_Field_def dest!: map_of_SomeD)
  with Cons.prems(2) have "\<forall>k v. map_of (dict_merge acc d) k = Some v \<longrightarrow> isinstance_Field v"
    by (auto simp: dict_merge_lookup split: option.splits)
  from Cons.IH [OF rest this Cons.prems(3)] show ?case .
qed

lemma set_source_simps [simp]:
  "kind (set_source cls f) = kind f"
  "default_val (set_source cls f) = default_val f"
  "allow_null (set_source cls f) = allow_null f"
  "unique (set_source cls f) = unique f"
  "other_cls (set_source cls f) = other_cls f"
  "source_cls (set_source cls f) = Some cls"
  by (simp_all add: set_source_def)

lemma bind_sources_Nil: "bind_sources cls [] h = h"
  by (simp add: bind_sources_def)

lemma bind_sources_Cons:
  "bind_sources cls ((k, a) # flds) h =
     bind_sources cls flds
       (if isinstance_ForeignField (kind (h a)) then h(a := set_source cls (h a)) else h)"
  by (simp add: bind_sources_def)

lemma bind_sources_at:
  "bind_sources cls flds h a =
     (if a \<in> snd ` set flds \<and> isinstance_ForeignField (kind (h a))
      then set_source cls (h a) else h a)"
proof (induction flds arbitrary: h)
  case Nil
  then show ?case by (simp add: bind_sources_Nil)
next
  case (Cons p flds)
  obtain k a0 where p: "p = (k, a0)" by (cases p)
  show ?case
    by (auto simp: p bind_sources_Cons Cons.IH set_source_def)
qed

lemma TableMeta_new_Inr:
  assumes "TableMeta_new st name bases attrs = Inr (st', cls)"
  shows "\<exists>base_attrs mro.
           merge_bases st bases [] = Inr base_attrs \<and>
           cls = PClass (length (classes st)) \<and>
           classes st' = classes st @
             [\<lparr>cls_name = name, cls_bases = bases, cls_mro = mro,
               cls_fields = only_fields (dict_merge base_attrs attrs),
               cls_attrs = pass_through attrs\<rparr>] \<and>
           heap st' = bind_sources cls (only_fields (dict_merge base_attrs attrs)) (heap st) \<and>
           next_addr st' = next_addr st"
  using assms
  by (auto simp: TableMeta_new_def type_new_def Let_def
      split: sum.splits option.splits if_splits prod.splits)

lemma TableMeta_new_old_cls:
  assumes "TableMeta_new st name bases attrs = Inr (st', cls)" and "get_cls st b = Some cb"
  shows "get_cls st' b = Some cb \<and> cls \<noteq> PClass b"
proof -
  from TableMeta_new_Inr [OF assms(1)] obtain base_attrs mro where
    *: "cls = PClass (length (classes st))"
       "classes st' = classes st @
             [\<lparr>cls_name = name, cls_bases = bases, cls_mro = mro,
               cls_fields = only_fields (dict_merge base_attrs attrs),
               cls_attrs = pass_through attrs\<rparr>]"
    by blast
  from assms(2) have "b < length (classes st)"
    by (simp add: get_cls_def split: if_splits)
  with * assms(2) show ?thesis
    by (simp add: get_cls_def nth_append)
qed

lemma TableMeta_new_fields:
  assumes "TableMeta_new st name bases attrs = Inr (st', PClass c)"
  shows "\<exists>base_attrs. merge_bases st bases [] = Inr base_attrs \<and>
           fields st' c = Inr (only_fields (dict_merge base_attrs attrs)) \<and>
           heap st' = bind_sources (PClass c) (only_fields (dict_merge base_attrs attrs)) (heap st)"
proof -
  from TableMeta_new_Inr [OF assms] obtain base_attrs mro where
    *: "merge_bases st bases [] = Inr base_attrs" "c = length (classes st)"
       "classes st' = classes st @
             [\<lparr>cls_name = name, cls_bases = bases, cls_mro = mro,
               cls_fields = only_fields (dict_merge base_attrs attrs),
               cls_attrs = pass_through attrs\<rparr>]"
       "heap st' = bind_sources (PClass c) (only_fields (dict_merge base_attrs attrs)) (heap st)"
    by blast
  then show ?thesis
    by (simp add: fields_def get_cls_def)
qed

lemma TableMeta_new_wf:
  assumes "TableMeta_new st name bases attrs = Inr (st', cls)" and "wf_state st"
  shows "wf_state st'"
proof -
  from TableMeta_new_Inr [OF assms(1)] obtain base_attrs mro where
    *: "merge_bases st bases [] = Inr base_attrs"
       "classes st' = classes st @
             [\<lparr>cls_name = name, cls_bases = bases, cls_mro = mro,
               cls_fields = only_fields (dict_merge base_attrs attrs),
               cls_attrs = pass_through attrs\<rparr>]"
    by blast
  from merge_bases_distinct [OF *(1)] have "distinct (map fst base_attrs)" by simp
  then have "distinct (map fst (only_fields (dict_merge base_attrs attrs)))"
    by (intro only_fields_distinct dict_merge_distinct)
  with assms(2) *(2) show ?thesis
    by (simp add: wf_state_def)
qed

lemma new_class_lookup:
  assumes "TableMeta_new st name bases attrs = Inr (st', PClass c)"
  shows "\<exists>base_attrs flds.
           merge_bases st bases [] = Inr base_attrs \<and> fields st' c = Inr flds \<and>
           distinct (map fst flds) \<and>
           heap st' = bind_sources (PClass c) flds (heap st) \<and>
           (\<forall>k. map_of flds k =
              (case (case map_of (rev attrs) k of None \<Rightarrow> map_of base_attrs k
                     | Some v \<Rightarrow> Some v) of
                 None \<Rightarrow> None
               | Some v \<Rightarrow> (case v of PField a \<Rightarrow> Some a | _ \<Rightarrow> None)))"
proof -
  from TableMeta_new_fields [OF assms] obtain base_attrs where
    *: "merge_bases st bases [] = Inr base_attrs"
       "fields st' c = Inr (only_fields (dict_merge base_attrs attrs))"
       "heap st' = bind_sources (PClass c) (only_fields (dict_merge base_attrs attrs)) (heap st)"
    by blast
  from merge_bases_distinct [OF *(1)] have "distinct (map fst base_attrs)"
    by simp
  then have dist: "distinct (map fst (dict_merge base_attrs attrs))"
    by (rule dict_merge_distinct)
  from * only_fields_distinct [OF dist] show ?thesis
    by (simp add: only_fields_lookup [OF dist] dict_merge_lookup)
qed

section \<open>The constructor loop\<close>

lemma resolved_value_delete:
  "k' \<noteq> k \<Longrightarrow> resolved_value h (AList.delete k kwargs) k' a = resolved_value h kwargs k' a"
  by (simp add: resolved_value_def)

lemma container_delete:
  "k' \<noteq> k \<Longrightarrow> container h (AList.delete k kwargs) k' a = container h kwargs k' a"
  by (simp add: container_def resolved_value_delete)

lemma init_fields_Cons:
  "init_fields h ((k, a) # rest) self kwargs =
     (if resolved_value h kwargs k a = PNone \<and> \<not> allow_null (h a)
      then Inl (NullConstraintException (null_message (h a) PNone))
      else (case object_setattr self k (container h kwargs k a) of
              Inl e \<Rightarrow> Inl e
            | Inr self' \<Rightarrow> init_fields h rest self' (AList.delete k kwargs)))"
proof (cases "map_of kwargs k")
  case None
  then have "AList.delete k kwargs = kwargs"
    by (simp add: map_of_eq_None_iff)
  with None show ?thesis
    by (simp add: resolved_value_def container_def FieldValue_init_def
        ForeignFieldValue_init_def Let_def cong: sum.case_cong)
next
  case (Some v)
  then show ?thesis
    by (simp add: resolved_value_def container_def FieldValue_init_def
        ForeignFieldValue_init_def Let_def)
qed

declare init_fields.simps(2) [simp del]


lemma setattr_container_Inr:
  "object_setattr self k (container h kwargs k a) = Inr self' \<Longrightarrow>
   \<not> is_slot_name k \<and>
   self' = self\<lparr>inst_dict := AList.update k (container h kwargs k a) (inst_dict self)\<rparr>"
  by (auto simp: object_setattr_def is_slot_name_def container_def split: if_splits)

lemma setattr_container_Inl:
  "object_setattr self k (container h kwargs k a) = Inl e \<Longrightarrow>
   is_slot_name k \<and> (\<forall>m. e \<noteq> NullConstraintException m)"
  by (auto simp: object_setattr_def is_slot_name_def container_def split: if_splits)

lemma init_fields_step:
  assumes "init_fields h ((k, a) # rest) self kwargs = Inr (self', kwargs')"
  shows "\<not> is_slot_name k \<and>
         \<not> (resolved_value h kwargs k a = PNone \<and> \<not> allow_null (h a)) \<and>
         init_fields h rest
           (self\<lparr>inst_dict := AList.update k (container h kwargs k a) (inst_dict self)\<rparr>)
           (AList.delete k kwargs) = Inr (self', kwargs')"
  using assms
  by (auto simp: init_fields_Cons split: if_splits sum.splits dest!: setattr_container_Inr)

lemma init_fields_cls:
  "init_fields h flds self kwargs = Inr (self', kwargs') \<Longrightarrow> inst_cls self' = inst_cls self"
proof (induction flds arbitrary: self kwargs)
  case Nil
  then show ?case by simp
next
  case (Cons p flds)
  obtain k a where p: "p = (k, a)" by (cases p)
  from init_fields_step [OF Cons.prems [unfolded p]] have
    "init_fields h flds
       (self\<lparr>inst_dict := AList.update k (container h kwargs k a) (inst_dict self)\<rparr>)
       (AList.delete k kwargs) = Inr (self', kwargs')"
    by blast
  from Cons.IH [OF this] show ?case by simp
qed

lemma init_fields_other:
  "init_fields h flds self kwargs = Inr (self', kwargs') \<Longrightarrow> name \<notin> fst ` set flds \<Longrightarrow>
   map_of (inst_dict self') name = map_of (inst_dict self) name"
proof (induction flds arbitrary: self kwargs)
  case Nil
  then show ?case by simp
next
  case (Cons p flds)
  obtain k a where p: "p = (k, a)" by (cases p)
  from init_fields_step [OF Cons.prems(1) [unfolded p]] have
    "init_fields h flds
       (self\<lparr>inst_dict := AList.update k (container h kwargs k a) (inst_dict self)\<rparr>)
       (AList.delete k kwargs) = Inr (self', kwargs')"
    by blast
  from Cons.IH [OF this] Cons.prems(2) p show ?case
    by (simp add: update_conv')
qed

lemma init_fields_stored:
  "init_fields h flds self kwargs = Inr (self', kwargs') \<Longrightarrow> distinct (map fst flds) \<Longrightarrow>
   (k, a) \<in> set flds \<Longrightarrow>
   map_of (inst_dict self') k = Some (container h kwargs k a) \<and> \<not> is_slot_name k \<and>
   \<not> (resolved_value h kwargs k a = PNone \<and> \<not> allow_null (h a))"
proof (induction flds arbitrary: self kwargs)
  case Nil
  then show ?case by simp
next
  case (Cons p flds)
  obtain k0 a0 where p: "p = (k0, a0)" by (cases p)
  let ?self1 = "self\<lparr>inst_dict := AList.update k0 (container h kwargs k0 a0) (inst_dict self)\<rparr>"
  from init_fields_step [OF Cons.prems(1) [unfolded p]] have step:
    "\<not> is_slot_name k0"
    "\<not> (resolved_value h kwargs k0 a0 = PNone \<and> \<not> allow_null (h a0))"
    "init_fields h flds ?self1 (AList.delete k0 kwargs) = Inr (self', kwargs')"
    by blast+
  from Cons.prems(2) p have fresh: "k0 \<notin> fst ` set flds" and dist: "distinct (map fst flds)"
    by auto
  show ?case
  proof (cases "(k, a) = (k0, a0)")
    case True
    with init_fields_other [OF step(3) fresh] step(1,2) show ?thesis
      by (simp add: update_conv')
  next
    case False
    with Cons.prems(3) p have mem: "(k, a) \<in> set flds" by auto
    with fresh have "k \<noteq> k0" by force
    with Cons.IH [OF step(3) dist mem] show ?thesis
      by (simp add: container_delete resolved_value_delete)
  qed
qed


lemma init_fields_null:
  "init_fields h flds self kwargs = Inl (NullConstraintException m) \<Longrightarrow>
   distinct (map fst flds) \<Longrightarrow>
   \<exists>(k, a) \<in> set flds. \<not> allow_null (h a) \<and> resolved_value h kwargs k a = PNone \<and>
      m = null_message (h a) PNone"
proof (induction flds arbitrary: self kwargs)
  case Nil
  then show ?case by simp
next
  case (Cons p flds)
  obtain k0 a0 where p: "p = (k0, a0)" by (cases p)
  from Cons.prems(2) p have fresh: "k0 \<notin> fst ` set flds" and dist: "distinct (map fst flds)"
    by auto
  show ?case
  proof (cases "resolved_value h kwargs k0 a0 = PNone \<and> \<not> allow_null (h a0)")
    case True
    with Cons.prems(1) p show ?thesis
      by (simp add: init_fields_Cons)
  next
    case False
    with Cons.prems(1) p obtain self1 where
      "init_fields h flds self1 (AList.delete k0 kwargs) = Inl (NullConstraintException m)"
      by (auto simp: init_fields_Cons split: sum.splits dest: setattr_container_Inl)
    from Cons.IH [OF this dist] obtain k a where
      ka: "(k, a) \<in> set flds" "\<not> allow_null (h a)"
        "resolved_value h (AList.delete k0 kwargs) k a = PNone" "m = null_message (h a) PNone"
      by blast
    from ka(1) fresh have "k \<noteq> k0" by force
    with ka p show ?thesis
      by (auto simp: resolved_value_delete)
  qed
qed


section \<open>The constructor as a whole\<close>

lemma get_cls_setattr:
  "get_cls (type_setattr st c name v) c' =
     (if c' = c
      then map_option (\<lambda>cl. cl\<lparr>cls_attrs := AList.update name v (cls_attrs cl)\<rparr>) (get_cls st c)
      else get_cls st c')"
  by (simp add: get_cls_def type_setattr_def)

lemma heap_setattr: "heap (type_setattr st c name v) = heap st"
  by (simp add: type_setattr_def)

lemma type_getattr_cls: "type_getattr st c name = Some v \<Longrightarrow> \<exists>cl. get_cls st c = Some cl"
  by (auto simp: type_getattr_def split: option.splits)

lemma type_getattr_setattr_same:
  "get_cls st c = Some cl \<Longrightarrow> name \<noteq> ''_fields'' \<Longrightarrow>
   type_getattr (type_setattr st c name v) c name = Some v"
  by (simp add: type_getattr_def get_cls_setattr cls_namespace_def update_conv')

lemma type_setattr_fields:
  "map cls_fields (classes (type_setattr st c name v)) = map cls_fields (classes st)"
proof (cases "c < length (classes st)")
  case True
  then show ?thesis
    by (simp add: type_setattr_def map_update list_update_same_conv)
next
  case False
  then have "length (classes st) \<le> c" by simp
  then show ?thesis
    by (simp add: type_setattr_def list_update_beyond)
qed

lemma wf_state_fields:
  "wf_state st \<longleftrightarrow> list_all (\<lambda>flds. distinct (map fst flds)) (map cls_fields (classes st))"
  by (simp add: wf_state_def list_all_iff)

lemma Table_init_wf: "wf_state st \<Longrightarrow> wf_state (fst (Table_init st c args kwargs))"
  by (simp add: wf_state_fields Table_init_def Let_def type_setattr_fields
      split: option.split sum.split list.split prod.split)

lemma Table_init_state:
  "map_of kwargs ''self'' = None \<Longrightarrow>
   type_getattr st c ''_count'' = Some n \<Longrightarrow> py_add n 1 = Inr n' \<Longrightarrow>
   fst (Table_init st c args kwargs) = type_setattr st c ''_count'' n'"
  by (simp add: Table_init_def Let_def split: list.split sum.split prod.split)

lemma Table_init_refused:
  "map_of kwargs ''self'' = Some v \<Longrightarrow>
   Table_init st c args kwargs =
     (st, Inl (TypeError [Txt ''__init__() got multiple values for argument self'']))"
  by (simp add: Table_init_def)

lemma Table_init_Inr:
  assumes "Table_init st c args kwargs = (st', Inr self)"
  shows "\<exists>n n' cl. map_of kwargs ''self'' = None \<and>
           type_getattr st c ''_count'' = Some n \<and> py_add n 1 = Inr n' \<and>
           st' = type_setattr st c ''_count'' n' \<and> args = [] \<and> get_cls st c = Some cl \<and>
           init_fields (heap st) (cls_fields cl) \<lparr>inst_cls = c, inst_dict = []\<rparr> kwargs
             = Inr (self, [])"
  using assms
  by (auto simp: Table_init_def Let_def heap_setattr fields_def get_cls_setattr
      split: list.splits sum.splits prod.splits option.splits if_splits)

lemma Table_init_null:
  assumes "Table_init st c args kwargs = (st', Inl (NullConstraintException m))"
  shows "\<exists>cl. get_cls st c = Some cl \<and>
           init_fields (heap st) (cls_fields cl) \<lparr>inst_cls = c, inst_dict = []\<rparr> kwargs
             = Inl (NullConstraintException m)"
  using assms
  by (auto simp: Table_init_def Let_def heap_setattr fields_def get_cls_setattr no_attribute_def
      split: list.splits sum.splits prod.splits option.splits if_splits
      elim: py_add.elims)

lemma Table_init_leftover:
  assumes "map_of kwargs ''self'' = None"
    and "type_getattr st c ''_count'' = Some n" and "py_add n 1 = Inr n'"
    and "get_cls st c = Some cl"
    and "init_fields (heap st) (cls_fields cl) \<lparr>inst_cls = c, inst_dict = []\<rparr> kwargs
           = Inr (self, kwargs')"
    and "kwargs' \<noteq> []"
  shows "snd (Table_init st c [] kwargs)
           = Inl (TypeError [Txt ''dict_keys object is not subscriptable''])"
  using assms
  by (simp add: Table_init_def Let_def heap_setattr fields_def get_cls_setattr)


lemma constructed_instance:
  assumes "snd (Table_init st c args kwargs) = Inr self" and "get_cls st c = Some cl"
  shows "init_fields (heap st) (cls_fields cl) \<lparr>inst_cls = c, inst_dict = []\<rparr> kwargs
           = Inr (self, [])"
    and "heap (fst (Table_init st c args kwargs)) = heap st"
proof -
  from assms(1) have "Table_init st c args kwargs = (fst (Table_init st c args kwargs), Inr self)"
    by (metis prod.collapse)
  from Table_init_Inr [OF this] assms(2)
  show "init_fields (heap st) (cls_fields cl) \<lparr>inst_cls = c, inst_dict = []\<rparr> kwargs
           = Inr (self, [])"
    and "heap (fst (Table_init st c args kwargs)) = heap st"
    by (auto simp: heap_setattr)
qed

lemma read_stored:
  "map_of (inst_dict self) k = Some v \<Longrightarrow> \<not> is_slot_name k \<Longrightarrow>
   object_getattribute st self k = Inr v"
  by (simp add: object_getattribute_def is_slot_name_def)

lemma read_class:
  "map_of (inst_dict self) k = None \<Longrightarrow> \<not> is_slot_name k \<Longrightarrow>
   object_getattribute st self k =
     (case type_getattr st (inst_cls self) k of Some v \<Rightarrow> Inr v | None \<Rightarrow> Inl (no_attribute k))"
  by (simp add: object_getattribute_def is_slot_name_def)

lemma Table_getattribute_plain:
  "object_getattribute st self item = Inr v \<Longrightarrow> \<not> isinstance_FieldValue v \<Longrightarrow>
   Table_getattribute st self item = Inr v"
  by (cases v) (simp_all add: Table_getattribute_def isinstance_FieldValue_def)

lemma constructed_field:
  assumes "snd (Table_init st c args kwargs) = Inr self"
    and "wf_state st" and "get_cls st c = Some cl" and "(k, a) \<in> set (cls_fields cl)"
  shows "object_getattribute (fst (Table_init st c args kwargs)) self k
           = Inr (container (heap st) kwargs k a)"
proof -
  note loop = constructed_instance(1) [OF assms(1,3)]
  from assms(2,3) have "distinct (map fst (cls_fields cl))"
    by (rule wf_state_get_cls)
  from init_fields_stored [OF loop this assms(4)] show ?thesis
    by (simp add: read_stored)
qed

lemma constructed_other:
  assumes "snd (Table_init st c args kwargs) = Inr self" and "get_cls st c = Some cl"
    and "item \<notin> set (map fst (cls_fields cl))" and "\<not> is_slot_name item"
  shows "object_getattribute (fst (Table_init st c args kwargs)) self item =
           (case type_getattr (fst (Table_init st c args kwargs)) c item of
              Some v \<Rightarrow> Inr v
            | None \<Rightarrow> Inl (no_attribute item))"
proof -
  note loop = constructed_instance(1) [OF assms(1,2)]
  from assms(3) init_fields_other [OF loop, of item]
  have "map_of (inst_dict self) item = None"
    by simp
  moreover have "inst_cls self = c"
    using init_fields_cls [OF loop] by simp
  ultimately show ?thesis
    using assms(4) by (simp add: read_class)
qed

section \<open>The example programs\<close>

text \<open>
  The example states are well-formed, and the two subclass definitions succeed.
\<close>

lemma Inr_eqI:
  "\<not> isl x \<Longrightarrow> snd (projr x) = cls \<Longrightarrow>
   x = Inr (case x of Inr (st, cls) \<Rightarrow> st | Inl e \<Rightarrow> d, cls)"
  by (cases x) auto

lemma wf_examples:
  "wf_state module_state \<and> wf_state person_state \<and> wf_state profile_state \<and>
   wf_state real_field_state"
  by code_simp

lemma premium_defined:
  "TableMeta_new profile_state ''Premium'' [PClass 2] [] = Inr (premium_state, PClass 3)"
  unfolding premium_state_def
  by (rule Inr_eqI; code_simp)

lemma dog_defined:
  "TableMeta_new real_field_state ''Dog'' [PClass 1] [(''age'', PField 3)]
     = Inr (dog_state, PClass 2)"
  unfolding dog_state_def
  by (rule Inr_eqI; code_simp)

section \<open>Claims\<close>

text \<open>
  Claim C1, as amended. Let an instance be constructed (the constructor returned it) from
  a class of a well-formed state. Reading the name of a scalar field of the resolved
  field set (the implicit \<^verbatim>\<open>_id\<close> is one) finds the field's \<^verbatim>\<open>_FieldValue\<close> container and
  returns the value wrapped in it, which is the value the constructor resolved. Reading
  the name of a relation field returns the \<^verbatim>\<open>ForeignFieldValue\<close> container itself: that
  class is not a \<^verbatim>\<open>_FieldValue\<close>, so the \<^verbatim>\<open>isinstance\<close> test passes it through. Reading
  any attribute whose stored value is not a \<^verbatim>\<open>_FieldValue\<close> returns that value unchanged;
  in particular a name that is not a field is looked up in the class, and a method or a
  class-level constant found there is returned as it is.
\<close>

theorem field_read_unwraps_scalar_container:
  assumes "snd (Table_init st c args kwargs) = Inr self"
    and "wf_state st" and "get_cls st c = Some cl"
  shows "(\<forall>k a. (k, a) \<in> set (cls_fields cl) \<and> \<not> isinstance_ForeignField (kind (heap st a)) \<longrightarrow>
            object_getattribute (fst (Table_init st c args kwargs)) self k
              = Inr (PFieldValue a (resolved_value (heap st) kwargs k a)) \<and>
            Table_getattribute (fst (Table_init st c args kwargs)) self k
              = Inr (resolved_value (heap st) kwargs k a)) \<and>
         (\<forall>k a. (k, a) \<in> set (cls_fields cl) \<and> isinstance_ForeignField (kind (heap st a)) \<longrightarrow>
            Table_getattribute (fst (Table_init st c args kwargs)) self k
              = Inr (PForeignFieldValue a (resolved_value (heap st) kwargs k a))) \<and>
         (\<forall>item v. object_getattribute (fst (Table_init st c args kwargs)) self item = Inr v \<and>
            \<not> isinstance_FieldValue v \<longrightarrow>
            Table_getattribute (fst (Table_init st c args kwargs)) self item = Inr v) \<and>
         (\<forall>item v. item \<notin> set (map fst (cls_fields cl)) \<and> \<not> is_slot_name item \<and>
            type_getattr (fst (Table_init st c args kwargs)) c item = Some v \<and>
            \<not> isinstance_FieldValue v \<longrightarrow>
            Table_getattribute (fst (Table_init st c args kwargs)) self item = Inr v)"
proof -
  let ?st' = "fst (Table_init st c args kwargs)"
  have scalar: "object_getattribute ?st' self k
              = Inr (PFieldValue a (resolved_value (heap st) kwargs k a)) \<and>
            Table_getattribute ?st' self k = Inr (resolved_value (heap st) kwargs k a)"
    if "(k, a) \<in> set (cls_fields cl)" "\<not> isinstance_ForeignField (kind (heap st a))" for k a
  proof -
    from constructed_field [OF assms that(1)] that(2)
    have "object_getattribute ?st' self k
        = Inr (PFieldValue a (resolved_value (heap st) kwargs k a))"
      by (simp add: container_def)
    then show ?thesis
      by (simp add: Table_getattribute_def)
  qed
  have relation: "Table_getattribute ?st' self k
              = Inr (PForeignFieldValue a (resolved_value (heap st) kwargs k a))"
    if "(k, a) \<in> set (cls_fields cl)" "isinstance_ForeignField (kind (heap st a))" for k a
  proof -
    from constructed_field [OF assms that(1)] that(2)
    have "object_getattribute ?st' self k
        = Inr (PForeignFieldValue a (resolved_value (heap st) kwargs k a))"
      by (simp add: container_def)
    then show ?thesis
      by (simp add: Table_getattribute_def)
  qed
  have other: "Table_getattribute ?st' self item = Inr v"
    if "item \<notin> set (map fst (cls_fields cl))" "\<not> is_slot_name item"
      "type_getattr ?st' c item = Some v" "\<not> isinstance_FieldValue v" for item v
  proof -
    from constructed_other [OF assms(1,3) that(1,2)] that(3)
    have "object_getattribute ?st' self item = Inr v"
      by simp
    then show ?thesis
      using that(4) by (rule Table_getattribute_plain)
  qed
  from scalar relation other show ?thesis
    by (blast intro: Table_getattribute_plain)
qed

theorem field_read_unwraps_scalar_container_witness:
  "snd (Table_init profile_state 2 [] [(''owner'', PObj 42)])
     = Inr \<lparr>inst_cls = 2,
            inst_dict = [(''_id'', PFieldValue 0 PNone),
                         (''owner'', PForeignFieldValue 3 (PObj 42))]\<rparr> \<and>
   Table_getattribute (fst (Table_init profile_state 2 [] [(''owner'', PObj 42)]))
       \<lparr>inst_cls = 2,
        inst_dict = [(''_id'', PFieldValue 0 PNone),
                     (''owner'', PForeignFieldValue 3 (PObj 42))]\<rparr> ''_id''
     = Inr PNone \<and>
   Table_getattribute (fst (Table_init profile_state 2 [] [(''owner'', PObj 42)]))
       \<lparr>inst_cls = 2,
        inst_dict = [(''_id'', PFieldValue 0 PNone),
                     (''owner'', PForeignFieldValue 3 (PObj 42))]\<rparr> ''owner''
     = Inr (PForeignFieldValue 3 (PObj 42)) \<and>
   Table_getattribute (fst (Table_init profile_state 2 [] [(''owner'', PObj 42)]))
       \<lparr>inst_cls = 2,
        inst_dict = [(''_id'', PFieldValue 0 PNone),
                     (''owner'', PForeignFieldValue 3 (PObj 42))]\<rparr> ''field_names''
     = Inr (PObj 2)"
proof -
  let ?kw = "[(''owner'', PObj 42)]"
  let ?self = "\<lparr>inst_cls = 2,
        inst_dict = [(''_id'', PFieldValue 0 PNone),
                     (''owner'', PForeignFieldValue 3 (PObj 42))]\<rparr>"
  let ?cl = "classes profile_state ! 2"
  have h1: "snd (Table_init profile_state 2 [] ?kw) = Inr ?self"
    by code_simp
  have h2: "wf_state profile_state"
    by code_simp
  have h3: "get_cls profile_state 2 = Some ?cl"
    by code_simp
  note T = field_read_unwraps_scalar_container [OF h1 h2 h3]
  have id: "(''_id'', 0) \<in> set (cls_fields ?cl) \<and>
      \<not> isinstance_ForeignField (kind (heap profile_state 0)) \<and>
      resolved_value (heap profile_state) ?kw ''_id'' 0 = PNone"
    by code_simp
  have owner: "(''owner'', 3) \<in> set (cls_fields ?cl) \<and>
      isinstance_ForeignField (kind (heap profile_state 3)) \<and>
      resolved_value (heap profile_state) ?kw ''owner'' 3 = PObj 42"
    by code_simp
  have meth: "''field_names'' \<notin> set (map fst (cls_fields ?cl)) \<and>
      \<not> is_slot_name ''field_names'' \<and>
      type_getattr (fst (Table_init profile_state 2 [] ?kw)) 2 ''field_names''
        = Some (PObj 2) \<and>
      \<not> isinstance_FieldValue (PObj 2)"
    by code_simp
  from T id have r1: "Table_getattribute (fst (Table_init profile_state 2 [] ?kw)) ?self ''_id''
      = Inr PNone"
    by metis
  from T owner have r2:
    "Table_getattribute (fst (Table_init profile_state 2 [] ?kw)) ?self ''owner''
      = Inr (PForeignFieldValue 3 (PObj 42))"
    by metis
  from T meth have r3:
    "Table_getattribute (fst (Table_init profile_state 2 [] ?kw)) ?self ''field_names''
      = Inr (PObj 2)"
    by blast
  from h1 r1 r2 r3 show ?thesis
    by blast
qed

text \<open>
  Claim C1 as stated fails for relation fields: for \<^verbatim>\<open>Profile(owner=x)\<close>, where
  \<^verbatim>\<open>owner\<close> is a one-to-one relation field in the resolved field set, reading
  \<^verbatim>\<open>owner\<close> returns the container \<^verbatim>\<open>ForeignFieldValue(field, x)\<close> and not the wrapped
  value \<open>x\<close>.
\<close>

theorem relation_read_returns_container:
  "fields profile_state 2 = Inr [(''_id'', 0), (''owner'', 3)] \<and>
   kind (heap profile_state 3) = KOneToOneField \<and>
   snd (Table_init profile_state 2 [] [(''owner'', PObj 42)])
     = Inr \<lparr>inst_cls = 2,
            inst_dict = [(''_id'', PFieldValue 0 PNone),
                         (''owner'', PForeignFieldValue 3 (PObj 42))]\<rparr> \<and>
   Table_getattribute (fst (Table_init profile_state 2 [] [(''owner'', PObj 42)]))
       \<lparr>inst_cls = 2,
        inst_dict = [(''_id'', PFieldValue 0 PNone),
                     (''owner'', PForeignFieldValue 3 (PObj 42))]\<rparr> ''owner''
     = Inr (PForeignFieldValue 3 (PObj 42)) \<and>
   Table_getattribute (fst (Table_init profile_state 2 [] [(''owner'', PObj 42)]))
       \<lparr>inst_cls = 2,
        inst_dict = [(''_id'', PFieldValue 0 PNone),
                     (''owner'', PForeignFieldValue 3 (PObj 42))]\<rparr> ''owner''
     \<noteq> Inr (PObj 42)"
  by code_simp

text \<open>
  Claim C2, evaluated on the code. \<^verbatim>\<open>Person(nickname="x")\<close> passes a keyword that is no
  field of \<^verbatim>\<open>Person\<close>. All known fields are processed, \<^verbatim>\<open>kwargs\<close> is left non-empty, and
  the \<^verbatim>\<open>raise AttributeError(...)\<close> formats its message with \<^verbatim>\<open>kwargs.keys()[0]\<close>, which
  raises \<^verbatim>\<open>TypeError\<close>: the construction fails, but not with the error that names the
  leftover key.
\<close>

theorem unknown_field_raises_TypeError:
  "snd (Table_init person_state 1 [] [(''nickname'', PStr ''x'')])
     = Inl (TypeError [Txt ''dict_keys object is not subscriptable''])"
  by code_simp

text \<open>
  Claim C3, as amended. When a class is defined from a body with distinct names over
  bases of a well-formed state, its resolved field set holds: every name the body binds
  to a descriptor, with that descriptor; no name the body binds to anything else, even
  when a base has a field of that name; and every name of the resolved field set of a
  base (which holds the ancestors' fields in turn) that the body does not bind, with the
  descriptor of the last base in the list of bases that has the name. So the body wins
  over all bases and a later base over an earlier one.
\<close>

theorem resolved_fields_of_new_class:
  assumes "TableMeta_new st name bases attrs = Inr (st', PClass c)"
    and "wf_state st" and "distinct (map fst attrs)"
  shows "\<exists>flds. fields st' c = Inr flds \<and>
     (\<forall>k a. map_of attrs k = Some (PField a) \<longrightarrow> map_of flds k = Some a) \<and>
     (\<forall>k v. map_of attrs k = Some v \<and> \<not> isinstance_Field v \<longrightarrow> map_of flds k = None) \<and>
     (\<forall>k base. map_of attrs k = None \<and> base \<in> set bases \<and> base_has st base k \<longrightarrow>
        k \<in> set (map fst flds)) \<and>
     (\<forall>k a bs1 b cb bs2.
        map_of attrs k = None \<and> bases = bs1 @ PClass b # bs2 \<and> get_cls st b = Some cb \<and>
        map_of (cls_fields cb) k = Some a \<and> (\<forall>base \<in> set bs2. \<not> base_has st base k) \<longrightarrow>
        map_of flds k = Some a)"
proof -
  from new_class_lookup [OF assms(1)] obtain base_attrs flds where
    mb: "merge_bases st bases [] = Inr base_attrs" and f: "fields st' c = Inr flds"
    and look: "\<And>k. map_of flds k =
              (case (case map_of (rev attrs) k of None \<Rightarrow> map_of base_attrs k
                     | Some v \<Rightarrow> Some v) of
                 None \<Rightarrow> None
               | Some v \<Rightarrow> (case v of PField a \<Rightarrow> Some a | _ \<Rightarrow> None))"
    by blast
  note own = map_of_rev_distinct [OF assms(3)]
  have a: "map_of flds k = Some a" if "map_of attrs k = Some (PField a)" for k a
    using that by (simp add: look own)
  have b: "map_of flds k = None" if "map_of attrs k = Some v" "\<not> isinstance_Field v" for k v
    using that by (cases v) (simp_all add: look own isinstance_Field_def)
  have c: "k \<in> set (map fst flds)"
    if "map_of attrs k = None" "base \<in> set bases" "base_has st base k" for k base
  proof -
    from merge_bases_has [OF mb that(2,3)] obtain v where v: "map_of base_attrs k = Some v"
      by blast
    from merge_bases_values [OF mb _ v] obtain a where "v = PField a"
      by (auto simp: isinstance_Field_iff)
    with v that(1) have "map_of flds k = Some a"
      by (simp add: look own)
    then show ?thesis
      by (auto dest!: map_of_SomeD intro: rev_image_eqI)
  qed
  have d: "map_of flds k = Some a"
    if "map_of attrs k = None" "bases = bs1 @ PClass b # bs2" "get_cls st b = Some cb"
      "map_of (cls_fields cb) k = Some a" "\<forall>base \<in> set bs2. \<not> base_has st base k"
    for k a bs1 b cb bs2
  proof -
    from assms(2) that(3) have "distinct (map fst (cls_fields cb))"
      by (rule wf_state_get_cls)
    from merge_bases_last [OF mb [unfolded that(2)] that(3) this that(4,5)] that(1)
    show ?thesis
      by (simp add: look own)
  qed
  from f a b c d show ?thesis
    by blast
qed

theorem resolved_fields_of_new_class_witness:
  "snd (new_field person_state (Field_init KRealField (PObj 15) True False)) = PField 3 \<and>
   (\<exists>flds. fields dog_state 2 = Inr flds \<and> map_of flds ''age'' = Some 3 \<and>
      map_of flds ''name'' = Some 1 \<and> ''_id'' \<in> set (map fst flds))"
proof -
  have h2: "wf_state real_field_state"
    by code_simp
  have h3: "distinct (map fst [(''age'', PField 3)])"
    by simp
  from resolved_fields_of_new_class [OF dog_defined h2 h3] obtain flds where
    f: "fields dog_state 2 = Inr flds"
    and own: "\<forall>k a. map_of [(''age'', PField 3)] k = Some (PField a) \<longrightarrow> map_of flds k = Some a"
    and has: "\<forall>k base. map_of [(''age'', PField 3)] k = None \<and> base \<in> set [PClass 1] \<and>
        base_has real_field_state base k \<longrightarrow> k \<in> set (map fst flds)"
    and inh: "\<forall>k a bs1 b cb bs2.
        map_of [(''age'', PField 3)] k = None \<and> [PClass 1] = bs1 @ PClass b # bs2 \<and>
        get_cls real_field_state b = Some cb \<and> map_of (cls_fields cb) k = Some a \<and>
        (\<forall>base \<in> set bs2. \<not> base_has real_field_state base k) \<longrightarrow> map_of flds k = Some a"
    by blast
  have age: "map_of flds ''age'' = Some 3"
    using own [rule_format, of "''age''" 3] by simp
  have cb: "get_cls real_field_state 1 = Some (classes real_field_state ! 1) \<and>
      map_of (cls_fields (classes real_field_state ! 1)) ''name'' = Some 1 \<and>
      base_has real_field_state (PClass 1) ''_id''"
    by code_simp
  have name: "map_of flds ''name'' = Some 1"
    using inh [rule_format, of "''name''" "[]" 1 "[]" "classes real_field_state ! 1" 1] cb
    by simp
  have id: "''_id'' \<in> set (map fst flds)"
    using has [rule_format, of "''_id''" "PClass 1"] cb by simp
  have addr: "snd (new_field person_state (Field_init KRealField (PObj 15) True False))
      = PField 3"
    by code_simp
  from addr f age name id show ?thesis
    by blast
qed

text \<open>
  Claim C3 as stated fails when a subtype rebinds an inherited field name to a value
  that is no descriptor: \<^verbatim>\<open>class Ageless(Person): age = None\<close>. The ancestor
  \<^verbatim>\<open>Person\<close> declares the field \<^verbatim>\<open>age\<close>, and the resolved field set of \<^verbatim>\<open>Ageless\<close> does
  not contain it, because the filter \<^verbatim>\<open>isinstance(value, _Field)\<close> runs after the merge.
\<close>

theorem non_field_attribute_drops_inherited_field:
  "field_names person_state 1 = Inr [''_id'', ''name'', ''age''] \<and>
   \<not> isl (TableMeta_new person_state ''Ageless'' [PClass 1] [(''age'', PNone)]) \<and>
   snd (projr (TableMeta_new person_state ''Ageless'' [PClass 1] [(''age'', PNone)])) = PClass 2 \<and>
   field_names (fst (projr (TableMeta_new person_state ''Ageless'' [PClass 1] [(''age'', PNone)]))) 2
     = Inr [''_id'', ''name'']"
  by code_simp

text \<open>
  Claim C4. When a subtype is defined and a relation descriptor of a base's resolved
  field set is inherited unchanged (the resolved field set of the subtype holds the same
  descriptor under the same name), then after the definition the descriptor's source
  entity is the subtype, which is a new class and so not the base.
\<close>

theorem inherited_relation_rebound_to_subtype:
  assumes "TableMeta_new st name bases attrs = Inr (st', PClass c)"
    and "PClass b \<in> set bases" and "get_cls st b = Some cb" and "(k, a) \<in> set (cls_fields cb)"
    and "isinstance_ForeignField (kind (heap st a))"
    and "fields st' c = Inr flds" and "(k, a) \<in> set flds"
  shows "source_cls (heap st' a) = Some (PClass c) \<and> c \<noteq> b \<and>
         source_cls (heap st' a) \<noteq> Some (PClass b)"
proof -
  from TableMeta_new_fields [OF assms(1)] assms(6) have
    h: "heap st' = bind_sources (PClass c) flds (heap st)"
    by auto
  from assms(7) have "a \<in> snd ` set flds"
    by force
  with assms(5) h have src: "source_cls (heap st' a) = Some (PClass c)"
    by (simp add: bind_sources_at)
  from TableMeta_new_old_cls [OF assms(1,3)] have "c \<noteq> b"
    by simp
  with src show ?thesis
    by simp
qed

theorem inherited_relation_rebound_to_subtype_witness:
  "source_cls (heap profile_state 3) = Some (PClass 2) \<and>
   fields premium_state 3 = Inr [(''_id'', 0), (''owner'', 3)] \<and>
   source_cls (heap premium_state 3) = Some (PClass 3) \<and> (3::nat) \<noteq> 2 \<and>
   source_cls (heap premium_state 3) \<noteq> Some (PClass 2)"
proof -
  have h2: "PClass 2 \<in> set [PClass 2]"
    by simp
  have h3: "get_cls profile_state 2 = Some (classes profile_state ! 2)"
    by code_simp
  have h4: "(''owner'', 3) \<in> set (cls_fields (classes profile_state ! 2))"
    by code_simp
  have h5: "isinstance_ForeignField (kind (heap profile_state 3))"
    by code_simp
  have h6: "fields premium_state 3 = Inr [(''_id'', 0), (''owner'', 3)]"
    by code_simp
  have h7: "(''owner'', 3) \<in> set [(''_id'', 0::nat), (''owner'', 3::nat)]"
    by simp
  have before: "source_cls (heap profile_state 3) = Some (PClass 2)"
    by code_simp
  from before h6 inherited_relation_rebound_to_subtype [OF premium_defined h2 h3 h4 h5 h6 h7]
  show ?thesis
    by simp
qed

text \<open>
  Claim C5. A descriptor of any kind with \<^verbatim>\<open>allow_null=False\<close> whose resolved value (the
  value passed, or the default when \<^verbatim>\<open>use_default\<close> is set) is \<^verbatim>\<open>None\<close> makes the
  constructor of either container raise \<^verbatim>\<open>NullConstraintException\<close>. When a field of the
  resolved field set is in that case, \<^verbatim>\<open>Table.__init__\<close> returns no instance. And the
  containers are the only place that enforces the constraint on instance data: whenever
  \<^verbatim>\<open>Table.__init__\<close> raises \<^verbatim>\<open>NullConstraintException\<close>, it is the exception of the
  container of a field whose descriptor forbids null and whose resolved value is
  \<^verbatim>\<open>None\<close>.
\<close>

theorem null_constraint_enforced_by_container:
  "(\<not> allow_null field \<and> (if \<not> use_default then v else default_val field) = PNone \<longrightarrow>
      FieldValue_init a field v use_default
        = Inl (NullConstraintException (null_message field PNone)) \<and>
      ForeignFieldValue_init a field v use_default
        = Inl (NullConstraintException (null_message field PNone))) \<and>
   (wf_state st \<and> get_cls st c = Some cl \<and> (k, b) \<in> set (cls_fields cl) \<and>
    \<not> allow_null (heap st b) \<and> resolved_value (heap st) kwargs k b = PNone \<longrightarrow>
      isl (snd (Table_init st c args kwargs))) \<and>
   (wf_state st \<and> get_cls st c = Some cl \<and>
    snd (Table_init st c args kwargs) = Inl (NullConstraintException m) \<longrightarrow>
      (\<exists>k b. (k, b) \<in> set (cls_fields cl) \<and> \<not> allow_null (heap st b) \<and>
         resolved_value (heap st) kwargs k b = PNone \<and> m = null_message (heap st b) PNone))"
proof (intro conjI impI)
  assume "\<not> allow_null field \<and> (if \<not> use_default then v else default_val field) = PNone"
  then show "FieldValue_init a field v use_default
        = Inl (NullConstraintException (null_message field PNone))"
    by (simp add: FieldValue_init_def)
next
  assume "\<not> allow_null field \<and> (if \<not> use_default then v else default_val field) = PNone"
  then show "ForeignFieldValue_init a field v use_default
        = Inl (NullConstraintException (null_message field PNone))"
    by (simp add: ForeignFieldValue_init_def)
next
  assume h: "wf_state st \<and> get_cls st c = Some cl \<and> (k, b) \<in> set (cls_fields cl) \<and>
    \<not> allow_null (heap st b) \<and> resolved_value (heap st) kwargs k b = PNone"
  then have dist: "distinct (map fst (cls_fields cl))"
    by (blast intro: wf_state_get_cls)
  show "isl (snd (Table_init st c args kwargs))"
  proof (rule ccontr)
    assume "\<not> isl (snd (Table_init st c args kwargs))"
    then obtain self where "snd (Table_init st c args kwargs) = Inr self"
      by (cases "snd (Table_init st c args kwargs)") auto
    then have "Table_init st c args kwargs = (fst (Table_init st c args kwargs), Inr self)"
      by (metis prod.collapse)
    from Table_init_Inr [OF this] h have
      "init_fields (heap st) (cls_fields cl) \<lparr>inst_cls = c, inst_dict = []\<rparr> kwargs
         = Inr (self, [])"
      by auto
    from init_fields_stored [OF this dist] h show False
      by blast
  qed
next
  assume h: "wf_state st \<and> get_cls st c = Some cl \<and>
    snd (Table_init st c args kwargs) = Inl (NullConstraintException m)"
  then have dist: "distinct (map fst (cls_fields cl))"
    by (blast intro: wf_state_get_cls)
  from h have "Table_init st c args kwargs
      = (fst (Table_init st c args kwargs), Inl (NullConstraintException m))"
    by (metis prod.collapse)
  from Table_init_null [OF this] h have
    "init_fields (heap st) (cls_fields cl) \<lparr>inst_cls = c, inst_dict = []\<rparr> kwargs
       = Inl (NullConstraintException m)"
    by auto
  from init_fields_null [OF this dist]
  show "\<exists>k b. (k, b) \<in> set (cls_fields cl) \<and> \<not> allow_null (heap st b) \<and>
         resolved_value (heap st) kwargs k b = PNone \<and> m = null_message (heap st b) PNone"
    by blast
qed

theorem null_constraint_enforced_by_container_witness:
  "\<not> allow_null (heap person_state 1) \<and>
   FieldValue_init 1 (heap person_state 1) PNone False
     = Inl (NullConstraintException (null_message (heap person_state 1) PNone)) \<and>
   ForeignFieldValue_init 1 (heap person_state 1) PNone False
     = Inl (NullConstraintException (null_message (heap person_state 1) PNone)) \<and>
   isl (snd (Table_init person_state 1 [] [(''name'', PNone)])) \<and>
   (\<exists>k b. (k, b) \<in> set (cls_fields (classes person_state ! 1)) \<and>
      \<not> allow_null (heap person_state b) \<and>
      resolved_value (heap person_state) [(''name'', PNone)] k b = PNone \<and>
      [Txt ''Cannot set field '', Txt ''TextField'', Txt '' to '', Fmt PNone,
       Txt '' if allow_null='', Fmt (PBool False), Txt ''.'']
        = null_message (heap person_state b) PNone)"
proof -
  have h1: "\<not> allow_null (heap person_state 1)"
    by code_simp
  have h2: "wf_state person_state"
    by code_simp
  have h3: "get_cls person_state 1 = Some (classes person_state ! 1)"
    by code_simp
  have h4: "(''name'', 1) \<in> set (cls_fields (classes person_state ! 1))"
    by code_simp
  have h5: "resolved_value (heap person_state) [(''name'', PNone)] ''name'' 1 = PNone"
    by code_simp
  have h6: "snd (Table_init person_state 1 [] [(''name'', PNone)])
      = Inl (NullConstraintException
          [Txt ''Cannot set field '', Txt ''TextField'', Txt '' to '', Fmt PNone,
           Txt '' if allow_null='', Fmt (PBool False), Txt ''.''])"
    by code_simp
  show ?thesis
    using h1 h2 h3 h4 h5 h6
      null_constraint_enforced_by_container
        [where field = "heap person_state 1" and use_default = False and v = PNone
           and a = 1 and st = person_state and c = 1 and cl = "classes person_state ! 1"
           and k = "''name''" and b = 1 and kwargs = "[(''name'', PNone)]" and args = "[]"
           and m = "[Txt ''Cannot set field '', Txt ''TextField'', Txt '' to '', Fmt PNone,
                     Txt '' if allow_null='', Fmt (PBool False), Txt ''.'']"]
    by simp
qed

text \<open>
  Claim C6. Each of the four relation classes (one-to-one, one-to-many, many-to-one,
  many-to-many) refuses a declaration with \<^verbatim>\<open>allow_null=False\<close> and no default (the
  default is \<^verbatim>\<open>None\<close>): the constructor of the descriptor raises
  \<^verbatim>\<open>NullConstraintException\<close>, the module's constraint error, with the message
  "Default value cannot be None if allow_null=False.". The constructor takes no state:
  it fails when the descriptor is declared, whether or not any class or instance exists.
\<close>

theorem relation_without_default_refused:
  "OneToOneField other PNone False =
     Inl (NullConstraintException
       [Txt ''Default value cannot be '', Fmt PNone, Txt '' if allow_null='',
        Fmt (PBool False), Txt ''.'']) \<and>
   OneToManyField other PNone False =
     Inl (NullConstraintException
       [Txt ''Default value cannot be '', Fmt PNone, Txt '' if allow_null='',
        Fmt (PBool False), Txt ''.'']) \<and>
   ManyToOneField other PNone False =
     Inl (NullConstraintException
       [Txt ''Default value cannot be '', Fmt PNone, Txt '' if allow_null='',
        Fmt (PBool False), Txt ''.'']) \<and>
   ManyToManyField other PNone False =
     Inl (NullConstraintException
       [Txt ''Default value cannot be '', Fmt PNone, Txt '' if allow_null='',
        Fmt (PBool False), Txt ''.''])"
  by (simp add: OneToOneField_def OneToManyField_def ManyToOneField_def ManyToManyField_def
      relation_init_def ForeignField_init_def Field_init_def)

theorem relation_without_default_refused_witness:
  "OneToOneField (PClass 1) PNone False =
     Inl (NullConstraintException
       [Txt ''Default value cannot be '', Fmt PNone, Txt '' if allow_null='',
        Fmt (PBool False), Txt ''.'']) \<and>
   OneToManyField (PClass 1) PNone False =
     Inl (NullConstraintException
       [Txt ''Default value cannot be '', Fmt PNone, Txt '' if allow_null='',
        Fmt (PBool False), Txt ''.'']) \<and>
   ManyToOneField (PClass 1) PNone False =
     Inl (NullConstraintException
       [Txt ''Default value cannot be '', Fmt PNone, Txt '' if allow_null='',
        Fmt (PBool False), Txt ''.'']) \<and>
   ManyToManyField (PClass 1) PNone False =
     Inl (NullConstraintException
       [Txt ''Default value cannot be '', Fmt PNone, Txt '' if allow_null='',
        Fmt (PBool False), Txt ''.''])"
  by (rule relation_without_default_refused [of "PClass 1"])

text \<open>
  Claim C7. The five scalar classes (text, integer, real, date, date-time) never check
  the default at declaration: whatever the arguments, and so with
  \<^verbatim>\<open>allow_null=False\<close> and the default \<^verbatim>\<open>None\<close>, the constructor returns the descriptor
  and raises nothing. Only the relation classes of claim C6 make the check.
\<close>

theorem scalar_without_default_accepted:
  "TextField dflt allow_null' unique' = Inr (Field_init KTextField dflt allow_null' unique') \<and>
   IntegerField dflt allow_null' unique' =
     Inr (Field_init KIntegerField dflt allow_null' unique') \<and>
   RealField dflt allow_null' unique' = Inr (Field_init KRealField dflt allow_null' unique') \<and>
   DateField dflt allow_null' unique' = Inr (Field_init KDateField dflt allow_null' unique') \<and>
   DateTimeField dflt allow_null' unique' =
     Inr (Field_init KDateTimeField dflt allow_null' unique')"
  by (simp add: TextField_def IntegerField_def RealField_def DateField_def DateTimeField_def)

theorem scalar_without_default_accepted_witness:
  "TextField PNone False False = Inr (Field_init KTextField PNone False False) \<and>
   IntegerField PNone False False = Inr (Field_init KIntegerField PNone False False) \<and>
   RealField PNone False False = Inr (Field_init KRealField PNone False False) \<and>
   DateField PNone False False = Inr (Field_init KDateField PNone False False) \<and>
   DateTimeField PNone False False = Inr (Field_init KDateTimeField PNone False False)"
  by (rule scalar_without_default_accepted [of PNone False False])




text \<open>
  Claim C9, as amended. Let the counter \<^verbatim>\<open>_count\<close> of a class read \<open>n\<close>. A call that
  binds to the signature of \<^verbatim>\<open>__init__\<close> (no keyword named \<^verbatim>\<open>self\<close>) leaves the counter of
  that class reading \<open>n + 1\<close>, whatever the other arguments and whatever the outcome (an
  instance, the error for a positional argument, a null-constraint violation, the error
  for an unknown keyword): it is incremented once, before anything in the body can
  raise, and the state that a failed construction leaves behind keeps the increment;
  the call writes nothing else. A call with a keyword named \<^verbatim>\<open>self\<close> is refused before
  the body runs: it fails and leaves the counter at \<open>n\<close>.
\<close>

theorem counter_incremented_once:
  assumes "type_getattr st c ''_count'' = Some (PInt n)"
  shows "(map_of kwargs ''self'' = None \<longrightarrow>
            type_getattr (fst (Table_init st c args kwargs)) c ''_count''
              = Some (PInt (n + 1)) \<and>
            (\<forall>c'. c' \<noteq> c \<longrightarrow>
               get_cls (fst (Table_init st c args kwargs)) c' = get_cls st c') \<and>
            heap (fst (Table_init st c args kwargs)) = heap st) \<and>
         (map_of kwargs ''self'' \<noteq> None \<longrightarrow>
            isl (snd (Table_init st c args kwargs)) \<and>
            type_getattr (fst (Table_init st c args kwargs)) c ''_count'' = Some (PInt n))"
proof (intro conjI impI)
  assume bound: "map_of kwargs ''self'' = None"
  from assms obtain cl where cl: "get_cls st c = Some cl"
    by (blast dest: type_getattr_cls)
  have st': "fst (Table_init st c args kwargs) = type_setattr st c ''_count'' (PInt (n + 1))"
    using assms bound by (simp add: Table_init_state)
  from cl show "type_getattr (fst (Table_init st c args kwargs)) c ''_count''
      = Some (PInt (n + 1))"
    by (simp add: st' type_getattr_setattr_same)
  show "\<forall>c'. c' \<noteq> c \<longrightarrow> get_cls (fst (Table_init st c args kwargs)) c' = get_cls st c'"
    by (simp add: st' get_cls_setattr)
  show "heap (fst (Table_init st c args kwargs)) = heap st"
    by (simp add: st' heap_setattr)
next
  assume "map_of kwargs ''self'' \<noteq> None"
  then obtain v where v: "map_of kwargs ''self'' = Some v"
    by blast
  show "isl (snd (Table_init st c args kwargs))"
    by (simp add: Table_init_refused [OF v])
  from assms show "type_getattr (fst (Table_init st c args kwargs)) c ''_count''
      = Some (PInt n)"
    by (simp add: Table_init_refused [OF v])
qed

theorem counter_incremented_once_witness:
  "type_getattr person_state 1 ''_count'' = Some (PInt 0) \<and>
   type_getattr (fst (Table_init person_state 1 [] [(''age'', PInt 5)])) 1 ''_count''
     = Some (PInt 1) \<and>
   type_getattr (fst (Table_init person_state 1 [PInt 7] [])) 1 ''_count'' = Some (PInt 1) \<and>
   type_getattr (fst (Table_init person_state 1 [] [(''name'', PNone)])) 1 ''_count''
     = Some (PInt 1) \<and>
   type_getattr (fst (Table_init person_state 1 [] [(''nickname'', PStr ''x'')])) 1 ''_count''
     = Some (PInt 1) \<and>
   isl (snd (Table_init person_state 1 [] [(''self'', PStr ''x'')])) \<and>
   type_getattr (fst (Table_init person_state 1 [] [(''self'', PStr ''x'')])) 1 ''_count''
     = Some (PInt 0)"
proof -
  have h: "type_getattr person_state 1 ''_count'' = Some (PInt 0)"
    by code_simp
  show ?thesis
    using h counter_incremented_once [OF h, of "[(''age'', PInt 5)]" "[]"]
      counter_incremented_once [OF h, of "[]" "[PInt 7]"]
      counter_incremented_once [OF h, of "[(''name'', PNone)]" "[]"]
      counter_incremented_once [OF h, of "[(''nickname'', PStr ''x'')]" "[]"]
      counter_incremented_once [OF h, of "[(''self'', PStr ''x'')]" "[]"]
    by simp
qed

text \<open>
  Claim C9 as stated fails for a construction that the binding of the arguments refuses:
  \<^verbatim>\<open>Person(**{"self": "x"})\<close> is an attempted construction, it raises \<^verbatim>\<open>TypeError\<close>
  before the body of \<^verbatim>\<open>__init__\<close> runs, and the counter of \<^verbatim>\<open>Person\<close> reads 0 before and
  after.
\<close>

theorem keyword_self_leaves_counter:
  "type_getattr person_state 1 ''_count'' = Some (PInt 0) \<and>
   snd (Table_init person_state 1 [] [(''self'', PStr ''x'')])
     = Inl (TypeError [Txt ''__init__() got multiple values for argument self'']) \<and>
   type_getattr (fst (Table_init person_state 1 [] [(''self'', PStr ''x'')])) 1 ''_count''
     = Some (PInt 0) \<and>
   type_getattr (fst (Table_init person_state 1 [] [(''self'', PStr ''x'')])) 1 ''_count''
     \<noteq> Some (PInt 1)"
  by code_simp

text \<open>
  Claim C10. A relation descriptor is one object, shared by the resolved field set of
  the class that has it and of every subtype that inherits it. Let a subtype be defined
  that inherits the relation field \<open>k\<close> of the class \<open>b\<close> (the body does not bind \<open>k\<close>,
  and no later base has it). Then the subtype's resolved field set holds the very
  descriptor of \<open>b\<close>, the resolved field set of \<open>b\<close> is what it was, and the descriptor
  found there now reports the new subtype, not \<open>b\<close>, as its source entity.
\<close>

theorem base_reports_latest_subtype_as_source:
  assumes "TableMeta_new st name bases attrs = Inr (st', PClass c)" and "wf_state st"
    and "get_cls st b = Some cb" and "map_of (cls_fields cb) k = Some a"
    and "isinstance_ForeignField (kind (heap st a))"
    and "bases = bs1 @ PClass b # bs2" and "\<forall>base \<in> set bs2. \<not> base_has st base k"
    and "map_of attrs k = None"
  shows "\<exists>flds. fields st' c = Inr flds \<and> map_of flds k = Some a \<and>
           fields st' b = Inr (cls_fields cb) \<and>
           source_cls (heap st' a) = Some (PClass c) \<and> c \<noteq> b"
proof -
  from new_class_lookup [OF assms(1)] obtain base_attrs flds where
    mb: "merge_bases st bases [] = Inr base_attrs" and f: "fields st' c = Inr flds"
    and h: "heap st' = bind_sources (PClass c) flds (heap st)"
    and look: "\<And>k. map_of flds k =
              (case (case map_of (rev attrs) k of None \<Rightarrow> map_of base_attrs k
                     | Some v \<Rightarrow> Some v) of
                 None \<Rightarrow> None
               | Some v \<Rightarrow> (case v of PField a \<Rightarrow> Some a | _ \<Rightarrow> None))"
    by blast
  from assms(8) have own: "map_of (rev attrs) k = None"
    by (simp add: map_of_eq_None_iff)
  from assms(2,3) have "distinct (map fst (cls_fields cb))"
    by (rule wf_state_get_cls)
  from merge_bases_last [OF mb [unfolded assms(6)] assms(3) this assms(4,7)]
  have same: "map_of flds k = Some a"
    by (simp add: look own)
  then have "a \<in> snd ` set flds"
    by (force dest!: map_of_SomeD)
  with assms(5) h have src: "source_cls (heap st' a) = Some (PClass c)"
    by (simp add: bind_sources_at)
  from TableMeta_new_old_cls [OF assms(1,3)] have "get_cls st' b = Some cb" "c \<noteq> b"
    by simp_all
  with f same src show ?thesis
    by (simp add: fields_def)
qed

theorem base_reports_latest_subtype_as_source_witness:
  "fields profile_state 2 = Inr [(''_id'', 0), (''owner'', 3)] \<and>
   source_cls (heap profile_state 3) = Some (PClass 2) \<and>
   (\<exists>flds. fields premium_state 3 = Inr flds \<and> map_of flds ''owner'' = Some 3 \<and>
      fields premium_state 2 = Inr [(''_id'', 0), (''owner'', 3)] \<and>
      source_cls (heap premium_state 3) = Some (PClass 3) \<and> (3::nat) \<noteq> 2)"
proof -
  have h2: "wf_state profile_state"
    by code_simp
  have h3: "get_cls profile_state 2 = Some (classes profile_state ! 2)"
    by code_simp
  have h4: "map_of (cls_fields (classes profile_state ! 2)) ''owner'' = Some 3"
    by code_simp
  have h5: "isinstance_ForeignField (kind (heap profile_state 3))"
    by code_simp
  have h6: "[PClass 2] = [] @ PClass 2 # []"
    by simp
  have h7: "\<forall>base \<in> set []. \<not> base_has profile_state base ''owner''"
    by simp
  have h8: "map_of ([] :: (string \<times> pyval) list) ''owner'' = None"
    by simp
  have f: "fields profile_state 2 = Inr [(''_id'', 0), (''owner'', 3)] \<and>
      cls_fields (classes profile_state ! 2) = [(''_id'', 0), (''owner'', 3)] \<and>
      source_cls (heap profile_state 3) = Some (PClass 2)"
    by code_simp
  from f base_reports_latest_subtype_as_source [OF premium_defined h2 h3 h4 h5 h6 h7 h8]
  show ?thesis
    by simp
qed

end
